theory Spec2Isabelle
  imports Main "HOL-Library.Word" "HOL-Library.Stream"
begin

unbundle bit_operations_syntax

section \<open>The SC16IS7x0 driver (package sc16is7x0 of src/cmd/main.go)\<close>

subsection \<open>Machine types and constants\<close>

type_synonym u8 = "8 word"
type_synonym u32 = "32 word"

text \<open>\<^verbatim>\<open>type Register byte\<close>, with the register constants of the source.\<close>

type_synonym Register = u8

definition regRHR :: Register where "regRHR = 0x00"
definition regTHR :: Register where "regTHR = 0x00"
definition regFCR :: Register where "regFCR = 0x02"
definition regIIR :: Register where "regIIR = 0x02"
definition regLCR :: Register where "regLCR = 0x03"
definition regMCR :: Register where "regMCR = 0x04"
definition regLSR :: Register where "regLSR = 0x05"
definition regSPR :: Register where "regSPR = 0x07"
definition regRXLVL :: Register where "regRXLVL = 0x09"
definition regDLL :: Register where "regDLL = 0x00"
definition regDLH :: Register where "regDLH = 0x01"

text \<open>\<^verbatim>\<open>type StopBits byte\<close> and \<^verbatim>\<open>type Parity byte\<close>; the parity constants are
  the character codes of 'N', 'O', 'E', 'M' and 'S'.\<close>

type_synonym StopBits = u8
type_synonym Parity = u8

definition Stop1 :: StopBits where "Stop1 = 1"
definition Stop1Half :: StopBits where "Stop1Half = 15"
definition Stop2 :: StopBits where "Stop2 = 2"

definition ParityNone :: Parity where "ParityNone = 78"
definition ParityOdd :: Parity where "ParityOdd = 79"
definition ParityEven :: Parity where "ParityEven = 69"
definition ParityMark :: Parity where "ParityMark = 77"
definition ParitySpace :: Parity where "ParitySpace = 83"

text \<open>\<^verbatim>\<open>type FifoType byte\<close>, numbered by \<^verbatim>\<open>iota\<close>.\<close>

type_synonym FifoType = u8

definition RxDFifo :: FifoType where "RxDFifo = 0"
definition TxDFifo :: FifoType where "TxDFifo = 1"
definition BothFifo :: FifoType where "BothFifo = 2"

definition DefaultSize :: u8 where "DefaultSize = 8"
definition testValue :: u8 where "testValue = 0xde"

text \<open>Go's \<^verbatim>\<open>error\<close> values. The three package-level errors are created by
  \<^verbatim>\<open>errors.New\<close> and are distinct from anything the I2C library returns; an error
  of the library is \<open>I2CError\<close> with its message.\<close>

datatype error = I2CError string | ErrorScratchpad | ErrUnsupportedDataBits | ErrTimeout

subsection \<open>The environment: I2C bus and clock\<close>

text \<open>
  The driver talks to the chip through \<^verbatim>\<open>github.com/d2r2/go-i2c\<close> and reads the clock
  with \<^verbatim>\<open>time.Now\<close>. Both are outside the repository. They are modelled as a recording
  double: the world holds, for each kind of call, the stream of answers the environment
  will give to the successive calls of that kind, and the trace of the bus transactions
  performed so far. A call takes the head of its stream and, for a bus call, appends its
  event to the trace. A read answers with Go's pair of a byte and an error (\<open>None\<close> is
  \<^verbatim>\<open>nil\<close>); \<^verbatim>\<open>NewI2C\<close> answers with an error or with a handle; the other bus calls
  answer with an error only. Times and durations are counted in nanoseconds.
\<close>

datatype event =
    EvNewI2C u8 int
  | EvReadRegU8 u8
  | EvWriteRegU8 u8 u8
  | EvClose

record world =
  opens :: "string option stream"
  reads :: "(u8 \<times> string option) stream"
  writes :: "string option stream"
  closes :: "string option stream"
  clock :: "int stream"
  trace :: "event list"

text \<open>The handle \<^verbatim>\<open>*i2c.I2C\<close>.\<close>

record I2C =
  i2c_addr :: u8
  i2c_bus :: int

definition NewI2C :: "u8 \<Rightarrow> int \<Rightarrow> world \<Rightarrow> (error + I2C) \<times> world" where
  "NewI2C a b s =
     (let s' = s\<lparr>opens := stl (opens s), trace := trace s @ [EvNewI2C a b]\<rparr>
      in case shd (opens s) of
           Some msg \<Rightarrow> (Inl (I2CError msg), s')
         | None \<Rightarrow> (Inr \<lparr>i2c_addr = a, i2c_bus = b\<rparr>, s'))"

definition ReadRegU8 :: "I2C \<Rightarrow> u8 \<Rightarrow> world \<Rightarrow> (u8 \<times> error option) \<times> world" where
  "ReadRegU8 h reg s =
     ((fst (shd (reads s)), map_option I2CError (snd (shd (reads s)))),
      s\<lparr>reads := stl (reads s), trace := trace s @ [EvReadRegU8 reg]\<rparr>)"

definition WriteRegU8 :: "I2C \<Rightarrow> u8 \<Rightarrow> u8 \<Rightarrow> world \<Rightarrow> error option \<times> world" where
  "WriteRegU8 h reg val s =
     (map_option I2CError (shd (writes s)),
      s\<lparr>writes := stl (writes s), trace := trace s @ [EvWriteRegU8 reg val]\<rparr>)"

definition I2C_Close :: "I2C \<Rightarrow> world \<Rightarrow> error option \<times> world" where
  "I2C_Close h s =
     (map_option I2CError (shd (closes s)),
      s\<lparr>closes := stl (closes s), trace := trace s @ [EvClose]\<rparr>)"

definition Now :: "world \<Rightarrow> int \<times> world" where
  "Now s = (shd (clock s), s\<lparr>clock := stl (clock s)\<rparr>)"

subsection \<open>The device and its register primitives\<close>

record SC16IS7X0 =
  dev :: I2C
  xtalFreq :: u32
  timeout :: int

definition readReg :: "SC16IS7X0 \<Rightarrow> Register \<Rightarrow> world \<Rightarrow> (u8 \<times> error option) \<times> world" where
  "readReg v reg s = ReadRegU8 (dev v) (push_bit 3 reg) s"

definition writeReg :: "SC16IS7X0 \<Rightarrow> Register \<Rightarrow> u8 \<Rightarrow> world \<Rightarrow> error option \<times> world" where
  "writeReg v reg val s = WriteRegU8 (dev v) (push_bit 3 reg) val s"

definition updateRegBit :: "SC16IS7X0 \<Rightarrow> Register \<Rightarrow> u8 \<Rightarrow> bool \<Rightarrow> world \<Rightarrow> error option \<times> world" where
  "updateRegBit v reg flag val s =
     (case readReg v reg s of
        ((flags, Some err), s1) \<Rightarrow> (Some err, s1)
      | ((flags, None), s1) \<Rightarrow>
          writeReg v reg
            (if val then flags OR push_bit (unat flag) 1
             else flags AND NOT (push_bit (unat flag) 1)) s1)"

definition peekRegBit :: "SC16IS7X0 \<Rightarrow> Register \<Rightarrow> u8 \<Rightarrow> world \<Rightarrow> (bool \<times> error option) \<times> world" where
  "peekRegBit v reg flag s =
     (case readReg v reg s of
        ((current, Some err), s1) \<Rightarrow> ((False, Some err), s1)
      | ((current, None), s1) \<Rightarrow> ((current AND push_bit (unat flag) 1 \<noteq> 0, None), s1))"

subsection \<open>Line attributes\<close>

definition setUARTAttributes ::
  "SC16IS7X0 \<Rightarrow> u8 \<Rightarrow> StopBits \<Rightarrow> Parity \<Rightarrow> world \<Rightarrow> error option \<times> world" where
  "setUARTAttributes v dataBits stopBits parity s =
     (case (if dataBits = 5 then Some 0
            else if dataBits = 6 then Some 1
            else if dataBits = 7 then Some 2
            else if dataBits = 8 then Some 3
            else None) of
        None \<Rightarrow> (Some ErrUnsupportedDataBits, s)
      | Some lcr0 \<Rightarrow>
          let lcr1 = (if stopBits \<noteq> Stop1 then lcr0 OR push_bit 2 1 else lcr0);
              lcr = (if parity = ParityNone then lcr1
                     else if parity = ParityOdd then lcr1 OR push_bit 3 1
                     else if parity = ParityEven then lcr1 OR push_bit 3 3
                     else if parity = ParityMark then lcr1 OR push_bit 3 5
                     else if parity = ParitySpace then lcr1 OR push_bit 3 7
                     else lcr1)
          in writeReg v regLCR lcr s)"

subsection \<open>Baud rate, self-test, FIFO control\<close>

text \<open>A call either returns or ends in Go's run-time panic for an integer division
  by zero, which unwinds through every caller of the package.\<close>

datatype 'a outcome = Return 'a | PanicDivideByZero

text \<open>The arithmetic is \<^verbatim>\<open>uint32\<close>: the product \<^verbatim>\<open>baud * 16\<close> wraps, the divisions
  truncate, and a zero divisor panics. \<^verbatim>\<open>int(...)\<close> of the quotient is its unsigned
  value (an \<^verbatim>\<open>int\<close> of 32 bits would hold other bits above bit 15 only, which
  both masks discard).\<close>

definition setBaudRate :: "SC16IS7X0 \<Rightarrow> u32 \<Rightarrow> world \<Rightarrow> error option outcome \<times> world" where
  "setBaudRate v baud s =
     (case peekRegBit v regMCR 7 s of
        ((clkDiv, Some err), s1) \<Rightarrow> (Return (Some err), s1)
      | ((clkDiv, None), s1) \<Rightarrow>
          let prescaler = (if clkDiv then 4 else 1 :: u32)
          in if baud * 16 = 0 then (PanicDivideByZero, s1)
             else
               let divisor = uint ((xtalFreq v div prescaler) div (baud * 16));
                   lowerDivisor = (word_of_int (divisor AND 0xFF) :: u8);
                   higherDivisor = (word_of_int (drop_bit 8 (divisor AND 0xFF00)) :: u8)
               in (case updateRegBit v regLCR 7 True s1 of
                    (Some err, s2) \<Rightarrow> (Return (Some err), s2)
                  | (None, s2) \<Rightarrow>
                 (case writeReg v regDLL lowerDivisor s2 of
                    (Some err, s3) \<Rightarrow> (Return (Some err), s3)
                  | (None, s3) \<Rightarrow>
                 (case writeReg v regDLH higherDivisor s3 of
                    (Some err, s4) \<Rightarrow> (Return (Some err), s4)
                  | (None, s4) \<Rightarrow>
                 (case updateRegBit v regLCR 7 False s4 of
                    (Some err, s5) \<Rightarrow> (Return (Some err), s5)
                  | (None, s5) \<Rightarrow> (Return None, s5))))))"

definition testChip :: "SC16IS7X0 \<Rightarrow> world \<Rightarrow> error option \<times> world" where
  "testChip v s =
     (case writeReg v regSPR testValue s of
        (Some err, s1) \<Rightarrow> (Some err, s1)
      | (None, s1) \<Rightarrow>
          (case readReg v regSPR s1 of
             ((rv, Some err), s2) \<Rightarrow> (Some err, s2)
           | ((rv, None), s2) \<Rightarrow>
               if rv \<noteq> testValue then (Some ErrorScratchpad, s2) else (None, s2)))"

definition ClearFifo :: "SC16IS7X0 \<Rightarrow> FifoType \<Rightarrow> world \<Rightarrow> error option \<times> world" where
  "ClearFifo v clearTarget s =
     (case readReg v regIIR s of
        ((iirFlags, Some err), s1) \<Rightarrow> (Some err, s1)
      | ((iirFlags, None), s1) \<Rightarrow>
          let fcrFlags0 = (if iirFlags AND 0xC0 \<noteq> 0 then 1 else 0 :: u8);
              fcrFlags = (if clearTarget = RxDFifo then fcrFlags0 OR 0x02
                          else if clearTarget = TxDFifo then fcrFlags0 OR 0x04
                          else if clearTarget = BothFifo then fcrFlags0 OR 0x06
                          else fcrFlags0)
          in writeReg v regFCR fcrFlags s1)"

definition enableFifo :: "SC16IS7X0 \<Rightarrow> bool \<Rightarrow> world \<Rightarrow> error option \<times> world" where
  "enableFifo v useFifo s = (if useFifo then writeReg v regFCR 1 s else writeReg v regFCR 0 s)"

definition fifoDataLength :: "SC16IS7X0 \<Rightarrow> world \<Rightarrow> (int \<times> error option) \<times> world" where
  "fifoDataLength v s =
     (case readReg v regRXLVL s of
        ((len, Some err), s1) \<Rightarrow> ((- 1, Some err), s1)
      | ((len, None), s1) \<Rightarrow> ((uint len, None), s1))"

definition Close :: "SC16IS7X0 \<Rightarrow> world \<Rightarrow> error option \<times> world" where
  "Close v s = I2C_Close (dev v) s"

subsection \<open>Byte stream: writing\<close>

text \<open>The poll loop of \<^verbatim>\<open>WriteByte\<close>. It has no bound of its own: it ends when the bus
  fails, when bit 5 of the Line Status Register is set, or when a clock reading lies
  after the deadline. \<open>None\<close> is a loop that runs forever.\<close>

partial_function (option) WriteByte_poll ::
  "SC16IS7X0 \<Rightarrow> int \<Rightarrow> world \<Rightarrow> (error option \<times> world) option" where
  "WriteByte_poll v timeoutTime s =
     (case peekRegBit v regLSR 5 s of
        ((empty', Some err), s1) \<Rightarrow> Some (Some err, s1)
      | ((empty', None), s1) \<Rightarrow>
          if empty' then Some (None, s1)
          else (case Now s1 of
                  (t, s2) \<Rightarrow>
                    if timeoutTime < t then Some (Some ErrTimeout, s2)
                    else WriteByte_poll v timeoutTime s2))"

definition WriteByte :: "SC16IS7X0 \<Rightarrow> u8 \<Rightarrow> world \<Rightarrow> (error option \<times> world) option" where
  "WriteByte v c s =
     (case Now s of
        (t0, s0) \<Rightarrow>
          (case WriteByte_poll v (t0 + timeout v) s0 of
             None \<Rightarrow> None
           | Some (Some err, s1) \<Rightarrow> Some (Some err, s1)
           | Some (None, s1) \<Rightarrow> Some (writeReg v regTHR c s1)))"

text \<open>\<^verbatim>\<open>Write\<close>: the \<^verbatim>\<open>range\<close> loop over the buffer, with the counter
  \<^verbatim>\<open>written\<close>.\<close>

fun Write_range ::
  "SC16IS7X0 \<Rightarrow> u8 list \<Rightarrow> int \<Rightarrow> world \<Rightarrow> ((int \<times> error option) \<times> world) option" where
  "Write_range v [] written s = Some ((written, None), s)"
| "Write_range v (val # p) written s =
     (case WriteByte v val s of
        None \<Rightarrow> None
      | Some (Some err, s1) \<Rightarrow> Some ((- 1, Some err), s1)
      | Some (None, s1) \<Rightarrow> Write_range v p (written + 1) s1)"

definition Write :: "SC16IS7X0 \<Rightarrow> u8 list \<Rightarrow> world \<Rightarrow> ((int \<times> error option) \<times> world) option" where
  "Write v p s = Write_range v p 0 s"

subsection \<open>Byte stream: reading\<close>

definition ReadByte :: "SC16IS7X0 \<Rightarrow> world \<Rightarrow> (u8 \<times> error option) \<times> world" where
  "ReadByte v s = readReg v regRHR s"

text \<open>The poll loop of \<^verbatim>\<open>Read\<close>. Where the source returns from inside the loop, the
  result is the count and the error it returns (\<open>-1\<close> with a bus error, \<open>-2\<close> with the
  timeout error); where the source leaves the loop by \<^verbatim>\<open>break\<close>, the result is
  \<open>(0, None)\<close>, of which \<open>Read\<close> uses only that there is no error.\<close>

partial_function (option) Read_poll ::
  "SC16IS7X0 \<Rightarrow> int \<Rightarrow> world \<Rightarrow> ((int \<times> error option) \<times> world) option" where
  "Read_poll v timeoutTime s =
     (case peekRegBit v regLSR 0 s of
        ((available, Some err), s1) \<Rightarrow> Some ((- 1, Some err), s1)
      | ((available, None), s1) \<Rightarrow>
          if available then Some ((0, None), s1)
          else (case Now s1 of
                  (t, s2) \<Rightarrow>
                    if timeoutTime < t then Some ((- 2, Some ErrTimeout), s2)
                    else Read_poll v timeoutTime s2))"

text \<open>The copy loop \<^verbatim>\<open>for i := 0; i < rlen; i++\<close>. The assignment
  \<^verbatim>\<open>p[i], err = v.ReadByte()\<close> stores the byte before the error is looked at. The index
  is within the buffer, since \<open>0 \<le> i < rlen \<le> len(p)\<close> where the loop is called.\<close>

function Read_copy ::
  "SC16IS7X0 \<Rightarrow> u8 list \<Rightarrow> int \<Rightarrow> int \<Rightarrow> world \<Rightarrow> (int \<times> error option) \<times> u8 list \<times> world" where
  "Read_copy v p rlen i s =
     (if i < rlen then
        (case ReadByte v s of
           ((b, Some err), s1) \<Rightarrow> ((i, Some err), p[nat i := b], s1)
         | ((b, None), s1) \<Rightarrow> Read_copy v (p[nat i := b]) rlen (i + 1) s1)
      else ((rlen, None), p, s))"
  by pat_completeness auto
termination
  by (relation "measure (\<lambda>(v, p, rlen, i, s). nat (rlen - i))") auto

text \<open>\<^verbatim>\<open>Read\<close> returns its count and error, the buffer as it has left it, and the
  world.\<close>

definition Read ::
  "SC16IS7X0 \<Rightarrow> u8 list \<Rightarrow> world \<Rightarrow> ((int \<times> error option) \<times> u8 list \<times> world) option" where
  "Read v p s =
     (case Now s of
        (t0, s0) \<Rightarrow>
          (case Read_poll v (t0 + timeout v) s0 of
             None \<Rightarrow> None
           | Some ((n, Some err), s1) \<Rightarrow> Some ((n, Some err), p, s1)
           | Some ((n, None), s1) \<Rightarrow>
               let blen = int (length p)
               in (case fifoDataLength v s1 of
                     ((flen, Some err), s2) \<Rightarrow> Some ((- 1, Some err), p, s2)
                   | ((flen, None), s2) \<Rightarrow>
                       let rlen = (if blen < flen then blen else flen)
                       in Some (Read_copy v p rlen 0 s2))))"

subsection \<open>Opening the device\<close>

record Config =
  Address :: u8
  Bus :: int
  Baud :: u32
  XtalFreq :: u32
  Timeout :: int
  Size :: u8
  Parity :: Parity
  StopBits :: StopBits

text \<open>\<^verbatim>\<open>Open\<close> returns the pair of a device pointer (\<open>None\<close> is \<^verbatim>\<open>nil\<close>) and an
  error. The result of \<^verbatim>\<open>dev.Close()\<close> on a failed step is dropped, as in the source.
  One second is \<open>10\<^sup>9\<close> nanoseconds.\<close>

definition Open ::
  "Config \<Rightarrow> world \<Rightarrow> (SC16IS7X0 option \<times> error option) outcome \<times> world" where
  "Open conf s =
     (let size = (if Size conf = 0 then DefaultSize else Size conf);
          parityType = (if Parity conf = 0 then ParityNone else Parity conf);
          stopBits = (if StopBits conf = 0 then Stop1 else StopBits conf);
          bus = (if Bus conf = 0 then 1 else Bus conf);
          timeout = (if Timeout conf = 0 then 1 * 1000000000 else Timeout conf)
      in case NewI2C (Address conf) bus s of
           (Inl err, s0) \<Rightarrow> (Return (None, Some err), s0)
         | (Inr i2c, s0) \<Rightarrow>
      let dev = \<lparr>dev = i2c, xtalFreq = XtalFreq conf, timeout = timeout\<rparr>
      in (case testChip dev s0 of
            (Some err, s1) \<Rightarrow> (Return (None, Some err), snd (Close dev s1))
          | (None, s1) \<Rightarrow>
         (case setBaudRate dev (Baud conf) s1 of
            (PanicDivideByZero, s2) \<Rightarrow> (PanicDivideByZero, s2)
          | (Return (Some err), s2) \<Rightarrow> (Return (None, Some err), snd (Close dev s2))
          | (Return None, s2) \<Rightarrow>
         (case enableFifo dev True s2 of
            (Some err, s3) \<Rightarrow> (Return (None, Some err), snd (Close dev s3))
          | (None, s3) \<Rightarrow>
         (case setUARTAttributes dev size stopBits parityType s3 of
            (Some err, s4) \<Rightarrow> (Return (None, Some err), snd (Close dev s4))
          | (None, s4) \<Rightarrow>
         (case ClearFifo dev BothFifo s4 of
            (Some err, s5) \<Rightarrow> (Return (None, Some err), snd (Close dev s5))
          | (None, s5) \<Rightarrow> (Return (Some dev, None), s5)))))))"

subsection \<open>Notions used in the statements\<close>

text \<open>\<open>bus_only s s'\<close>: from \<open>s\<close> to \<open>s'\<close> the trace has grown by events none of which is
  a close, and no answer to a close has been consumed.\<close>

definition bus_only :: "world \<Rightarrow> world \<Rightarrow> bool" where
  "bus_only s s' \<longleftrightarrow>
     closes s' = closes s \<and> (\<exists>evs. trace s' = trace s @ evs \<and> EvClose \<notin> set evs)"

text \<open>\<open>after_polls n s\<close>: the world after \<open>n\<close> rounds of a poll loop that went on, each
  round one read of the Line Status Register (register 5, address \<open>0x28\<close>) and one
  reading of the clock.\<close>

definition after_polls :: "nat \<Rightarrow> world \<Rightarrow> world" where
  "after_polls n s =
     s\<lparr>reads := sdrop n (reads s), clock := sdrop n (clock s),
       trace := trace s @ replicate n (EvReadRegU8 0x28)\<rparr>"

subsection \<open>Concrete devices and worlds for the examples\<close>

text \<open>The device of the sample program (address 0x48, bus 1, a 14.7456 MHz crystal, the
  default timeout of one second), and a world whose bus answers with the given streams and
  never fails to open or close.\<close>

definition dev0 :: SC16IS7X0 where
  "dev0 = \<lparr>dev = \<lparr>i2c_addr = 0x48, i2c_bus = 1\<rparr>, xtalFreq = 14745600, timeout = 1000000000\<rparr>"

definition bus_double ::
  "(u8 \<times> string option) stream \<Rightarrow> string option stream \<Rightarrow> int stream \<Rightarrow> world" where
  "bus_double rs ws ts =
     \<lparr>opens = sconst None, reads = rs, writes = ws, closes = sconst None, clock = ts, trace = []\<rparr>"

text \<open>The configuration of the sample program: every field it does not set is zero.\<close>

definition conf0 :: Config where
  "conf0 = \<lparr>Address = 0x48, Bus = 0, Baud = 9600, XtalFreq = 14745600, Timeout = 0,
             Size = 0, Parity = 0, StopBits = 0\<rparr>"

section \<open>Properties\<close>

subsection \<open>Register primitives\<close>

lemmas reg_defs =
  regRHR_def regTHR_def regFCR_def regIIR_def regLCR_def regMCR_def regLSR_def
  regSPR_def regRXLVL_def regDLL_def regDLH_def

lemmas parity_defs =
  ParityNone_def ParityOdd_def ParityEven_def ParityMark_def ParitySpace_def

lemma readReg_eq:
  "readReg v reg s =
     ((fst (shd (reads s)), map_option I2CError (snd (shd (reads s)))),
      s\<lparr>reads := stl (reads s), trace := trace s @ [EvReadRegU8 (push_bit 3 reg)]\<rparr>)"
  by (simp add: readReg_def ReadRegU8_def)

lemma writeReg_eq:
  "writeReg v reg val s =
     (map_option I2CError (shd (writes s)),
      s\<lparr>writes := stl (writes s), trace := trace s @ [EvWriteRegU8 (push_bit 3 reg) val]\<rparr>)"
  by (simp add: writeReg_def WriteRegU8_def)

lemma and_2p_iff_bit: "(w AND 2 ^ n \<noteq> 0) = bit w n" for w :: u8
  using bit_iff_and_push_bit_not_eq_0 [of w n] by simp

lemma peekRegBit_eq:
  "peekRegBit v reg flag s =
     ((snd (shd (reads s)) = None \<and> bit (fst (shd (reads s))) (unat flag),
       map_option I2CError (snd (shd (reads s)))),
      s\<lparr>reads := stl (reads s), trace := trace s @ [EvReadRegU8 (push_bit 3 reg)]\<rparr>)"
  by (cases "shd (reads s)")
    (auto simp add: peekRegBit_def readReg_eq and_2p_iff_bit split: option.splits)

subsection \<open>Line attributes\<close>

lemma lcr_fields:
  fixes a b c :: u8
  assumes "a \<in> {0, 1, 2, 3}" "b \<in> {0, 4}" "c \<in> {0, 1, 3, 5, 7}"
  shows "(a OR b OR push_bit 3 c) AND 3 = a"
    and "bit (a OR b OR push_bit 3 c) 2 \<longleftrightarrow> b = 4"
    and "drop_bit 3 (a OR b OR push_bit 3 c) AND 7 = c"
    and "drop_bit 6 (a OR b OR push_bit 3 c) = 0"
  using assms by (auto simp add: bit_iff_odd_drop_bit)

lemma setUARTAttributes_write:
  assumes "dataBits \<in> {5, 6, 7, 8}"
  shows "setUARTAttributes v dataBits stopBits parity s =
           writeReg v regLCR
             ((dataBits - 5) OR (if stopBits \<noteq> Stop1 then 4 else 0) OR
              push_bit 3 (if parity = ParityNone then 0 else if parity = ParityOdd then 1
                else if parity = ParityEven then 3 else if parity = ParityMark then 5
                else if parity = ParitySpace then 7 else 0)) s"
proof -
  from assms consider "dataBits = 5" | "dataBits = 6" | "dataBits = 7" | "dataBits = 8"
    by blast
  then show ?thesis
  proof cases
    case 1 then show ?thesis by (simp add: setUARTAttributes_def)
  next
    case 2 then show ?thesis by (simp add: setUARTAttributes_def)
  next
    case 3 then show ?thesis by (simp add: setUARTAttributes_def)
  next
    case 4 then show ?thesis by (simp add: setUARTAttributes_def)
  qed
qed

text \<open>
  Claim C1. For data bits 5 to 8, any stop-bit value and any parity byte,
  \<open>setUARTAttributes\<close> performs exactly one bus transaction, a write of one byte \<open>lcr\<close> to
  the Line Control Register (register 3, address \<open>0x18\<close> on the wire), and returns what
  that write returns. In \<open>lcr\<close>, bits 1..0 are \<open>dataBits - 5\<close>, bit 2 is set exactly when
  \<open>stopBits\<close> is not \<open>Stop1\<close>, bits 5..3 are the parity code (None 0, Odd 1, Even 3,
  Mark 5, Space 7, and 0 for any other parity byte, which is no error), and bits 7..6 are
  clear.
\<close>

theorem setUARTAttributes_lcr:
  assumes "dataBits \<in> {5, 6, 7, 8}"
  shows "\<exists>lcr. setUARTAttributes v dataBits stopBits parity s =
           (map_option I2CError (shd (writes s)),
            s\<lparr>writes := stl (writes s), trace := trace s @ [EvWriteRegU8 0x18 lcr]\<rparr>)
         \<and> lcr AND 3 = dataBits - 5
         \<and> (bit lcr 2 \<longleftrightarrow> stopBits \<noteq> Stop1)
         \<and> drop_bit 3 lcr AND 7 =
             (if parity = ParityNone then 0 else if parity = ParityOdd then 1
              else if parity = ParityEven then 3 else if parity = ParityMark then 5
              else if parity = ParitySpace then 7 else 0)
         \<and> drop_bit 6 lcr = 0"
proof -
  define a :: u8 where "a = dataBits - 5"
  define b :: u8 where "b = (if stopBits \<noteq> Stop1 then 4 else 0)"
  define c :: u8 where "c = (if parity = ParityNone then 0 else if parity = ParityOdd then 1
              else if parity = ParityEven then 3 else if parity = ParityMark then 5
              else if parity = ParitySpace then 7 else 0)"
  have a: "a \<in> {0, 1, 2, 3}" using assms unfolding a_def by auto
  have b: "b \<in> {0, 4}" unfolding b_def by simp
  have c: "c \<in> {0, 1, 3, 5, 7}" unfolding c_def by simp
  have "setUARTAttributes v dataBits stopBits parity s =
           (map_option I2CError (shd (writes s)),
            s\<lparr>writes := stl (writes s),
              trace := trace s @ [EvWriteRegU8 0x18 (a OR b OR push_bit 3 c)]\<rparr>)"
    unfolding a_def b_def c_def setUARTAttributes_write [OF assms]
    by (simp add: writeReg_eq regLCR_def)
  moreover have "(bit (a OR b OR push_bit 3 c) 2 \<longleftrightarrow> stopBits \<noteq> Stop1)"
    unfolding lcr_fields(2) [OF a b c] by (simp add: b_def)
  ultimately show ?thesis
    using lcr_fields(1,3,4) [OF a b c] unfolding a_def [symmetric] c_def [symmetric]
    by blast
qed

text \<open>Seven data bits, two stop bits and even parity give the byte \<open>0b011110\<close>; eight
  data bits, one stop bit and an undefined parity byte give \<open>0b000011\<close>.\<close>

theorem setUARTAttributes_lcr_witness:
  "(7 :: u8) \<in> {5, 6, 7, 8}
   \<and> setUARTAttributes dev0 7 Stop2 ParityEven (bus_double (sconst (0, None)) (sconst None) (sconst 0)) =
       (None, \<lparr>opens = sconst None, reads = sconst (0, None), writes = sconst None,
               closes = sconst None, clock = sconst 0, trace = [EvWriteRegU8 0x18 0x1E]\<rparr>)
   \<and> setUARTAttributes dev0 8 Stop1 0x58 (bus_double (sconst (0, None)) (sconst None) (sconst 0)) =
       (None, \<lparr>opens = sconst None, reads = sconst (0, None), writes = sconst None,
               closes = sconst None, clock = sconst 0, trace = [EvWriteRegU8 0x18 0x03]\<rparr>)"
proof -
  let ?w = "bus_double (sconst (0, None)) (sconst None) (sconst 0)"
  have h: "(7 :: u8) \<in> {5, 6, 7, 8}" by simp
  obtain lcr where
    r: "setUARTAttributes dev0 7 Stop2 ParityEven ?w =
          (map_option I2CError (shd (writes ?w)),
           ?w\<lparr>writes := stl (writes ?w), trace := trace ?w @ [EvWriteRegU8 0x18 lcr]\<rparr>)"
    using setUARTAttributes_lcr [OF h, of dev0 Stop2 ParityEven ?w] by blast
  have e: "setUARTAttributes dev0 7 Stop2 ParityEven ?w =
          (None, \<lparr>opens = sconst None, reads = sconst (0, None), writes = sconst None,
               closes = sconst None, clock = sconst 0, trace = [EvWriteRegU8 0x18 0x1E]\<rparr>)"
    by (simp add: setUARTAttributes_def writeReg_eq regLCR_def parity_defs Stop1_def
        Stop2_def bus_double_def)
  have e': "setUARTAttributes dev0 8 Stop1 0x58 ?w =
          (None, \<lparr>opens = sconst None, reads = sconst (0, None), writes = sconst None,
               closes = sconst None, clock = sconst 0, trace = [EvWriteRegU8 0x18 0x03]\<rparr>)"
    by (simp add: setUARTAttributes_def writeReg_eq regLCR_def parity_defs Stop1_def
        bus_double_def)
  from h r e e' show ?thesis by simp
qed

text \<open>
  Claim C6. For a data-bit count other than 5, 6, 7 and 8, \<open>setUARTAttributes\<close> returns
  \<open>ErrUnsupportedDataBits\<close> and leaves the world as it was: no bus transaction is
  performed and the trace is unchanged.
\<close>

theorem setUARTAttributes_unsupported:
  assumes "dataBits \<notin> {5, 6, 7, 8}"
  shows "setUARTAttributes v dataBits stopBits parity s = (Some ErrUnsupportedDataBits, s)"
  using assms by (simp add: setUARTAttributes_def)

theorem setUARTAttributes_unsupported_witness:
  "(9 :: u8) \<notin> {5, 6, 7, 8}
   \<and> setUARTAttributes dev0 9 Stop1 ParityNone (bus_double (sconst (0, None)) (sconst None) (sconst 0)) =
       (Some ErrUnsupportedDataBits, bus_double (sconst (0, None)) (sconst None) (sconst 0))"
proof -
  have h: "(9 :: u8) \<notin> {5, 6, 7, 8}" by simp
  from h setUARTAttributes_unsupported [OF h] show ?thesis by simp
qed

subsection \<open>Clearing the FIFOs\<close>

lemma fcr_fields:
  fixes e t :: u8
  assumes "e \<in> {0, 1}" "t \<in> {2, 4, 6}"
  shows "bit (e OR t) 0 \<longleftrightarrow> e = 1"
    and "bit (e OR t) 1 \<longleftrightarrow> t = 2 \<or> t = 6"
    and "bit (e OR t) 2 \<longleftrightarrow> t = 4 \<or> t = 6"
    and "drop_bit 3 (e OR t) = 0"
  using assms by (auto simp add: bit_iff_odd_drop_bit)

lemma ClearFifo_write:
  assumes "snd (shd (reads s)) = None"
  shows "ClearFifo v clearTarget s =
           (map_option I2CError (shd (writes s)),
            s\<lparr>reads := stl (reads s), writes := stl (writes s),
              trace := trace s @ [EvReadRegU8 0x10,
                EvWriteRegU8 0x10
                  ((if fst (shd (reads s)) AND 0xC0 \<noteq> 0 then 1 else 0) OR
                   (if clearTarget = RxDFifo then 2 else if clearTarget = TxDFifo then 4
                    else if clearTarget = BothFifo then 6 else 0))]\<rparr>)"
  using assms
  by (cases "shd (reads s)"; cases s)
    (simp add: ClearFifo_def readReg_eq writeReg_eq regIIR_def regFCR_def)

text \<open>
  Claim C5. For each of the selectors \<open>RxDFifo\<close>, \<open>TxDFifo\<close> and \<open>BothFifo\<close>, when the read
  of the Interrupt Identification Register (register 2, address \<open>0x10\<close>) succeeds with
  \<open>iirFlags\<close>, \<open>ClearFifo\<close> reads that register once and then writes one byte \<open>fcr\<close> to
  the FIFO Control Register (the same address), returning what the write returns. Bit 0
  of \<open>fcr\<close> is the FIFO-enabled flag detected in \<open>iirFlags\<close> (one of its bits 7 and 6 is
  set), bit 1 is set for Receive and Both, bit 2 for Transmit and Both, and no other bit
  is set. With the flag detected, the bytes are \<open>0b011\<close>, \<open>0b101\<close> and \<open>0b111\<close>.
\<close>

theorem ClearFifo_byte:
  assumes "clearTarget \<in> {RxDFifo, TxDFifo, BothFifo}"
    and "shd (reads s) = (iirFlags, None)"
  shows "\<exists>fcr. ClearFifo v clearTarget s =
           (map_option I2CError (shd (writes s)),
            s\<lparr>reads := stl (reads s), writes := stl (writes s),
              trace := trace s @ [EvReadRegU8 0x10, EvWriteRegU8 0x10 fcr]\<rparr>)
         \<and> (bit fcr 0 \<longleftrightarrow> iirFlags AND 0xC0 \<noteq> 0)
         \<and> (bit fcr 1 \<longleftrightarrow> clearTarget = RxDFifo \<or> clearTarget = BothFifo)
         \<and> (bit fcr 2 \<longleftrightarrow> clearTarget = TxDFifo \<or> clearTarget = BothFifo)
         \<and> drop_bit 3 fcr = 0
         \<and> (iirFlags AND 0xC0 \<noteq> 0 \<longrightarrow>
              fcr = (if clearTarget = RxDFifo then 3 else if clearTarget = TxDFifo then 5 else 7))"
proof -
  define e :: u8 where "e = (if iirFlags AND 0xC0 \<noteq> 0 then 1 else 0)"
  define t :: u8 where "t = (if clearTarget = RxDFifo then 2 else if clearTarget = TxDFifo then 4
                    else if clearTarget = BothFifo then 6 else 0)"
  have e: "e \<in> {0, 1}" unfolding e_def by simp
  have t: "t \<in> {2, 4, 6}" using assms(1) unfolding t_def by auto
  have sel: "(t = 2 \<or> t = 6) = (clearTarget = RxDFifo \<or> clearTarget = BothFifo)"
       "(t = 4 \<or> t = 6) = (clearTarget = TxDFifo \<or> clearTarget = BothFifo)"
    using assms(1) unfolding t_def by (auto simp add: RxDFifo_def TxDFifo_def BothFifo_def)
  have en: "(e = 1) = (iirFlags AND 0xC0 \<noteq> 0)" unfolding e_def by simp
  have run: "ClearFifo v clearTarget s =
           (map_option I2CError (shd (writes s)),
            s\<lparr>reads := stl (reads s), writes := stl (writes s),
              trace := trace s @ [EvReadRegU8 0x10, EvWriteRegU8 0x10 (e OR t)]\<rparr>)"
    using ClearFifo_write [of s v clearTarget] assms(2) by (simp add: e_def t_def)
  have val: "iirFlags AND 0xC0 \<noteq> 0 \<longrightarrow>
      e OR t = (if clearTarget = RxDFifo then 3 else if clearTarget = TxDFifo then 5 else 7)"
    using assms(1) unfolding e_def t_def
    by (auto simp add: RxDFifo_def TxDFifo_def BothFifo_def)
  show ?thesis
    using run val fcr_fields [OF e t] unfolding sel en by blast
qed

theorem ClearFifo_byte_witness:
  "BothFifo \<in> {RxDFifo, TxDFifo, BothFifo}
   \<and> shd (reads (bus_double (sconst (0xC1, None)) (sconst None) (sconst 0))) = (0xC1, None)
   \<and> (0xC1 :: u8) AND 0xC0 \<noteq> 0
   \<and> ClearFifo dev0 BothFifo (bus_double (sconst (0xC1, None)) (sconst None) (sconst 0)) =
       (None, \<lparr>opens = sconst None, reads = sconst (0xC1, None), writes = sconst None,
               closes = sconst None, clock = sconst 0,
               trace = [EvReadRegU8 0x10, EvWriteRegU8 0x10 7]\<rparr>)"
proof -
  let ?w = "bus_double (sconst (0xC1, None)) (sconst None) (sconst 0)"
  have h1: "BothFifo \<in> {RxDFifo, TxDFifo, BothFifo}" by simp
  have h2: "shd (reads ?w) = (0xC1, None)" by (simp add: bus_double_def)
  have h3: "(0xC1 :: u8) AND 0xC0 \<noteq> 0" by simp
  have d: "BothFifo \<noteq> RxDFifo" "BothFifo \<noteq> TxDFifo"
    by (simp_all add: RxDFifo_def TxDFifo_def BothFifo_def)
  from ClearFifo_byte [OF h1 h2, of dev0] h3 d
  have "ClearFifo dev0 BothFifo ?w =
          (map_option I2CError (shd (writes ?w)),
           ?w\<lparr>reads := stl (reads ?w), writes := stl (writes ?w),
             trace := trace ?w @ [EvReadRegU8 0x10, EvWriteRegU8 0x10 7]\<rparr>)"
    by auto
  then have "ClearFifo dev0 BothFifo ?w =
       (None, \<lparr>opens = sconst None, reads = sconst (0xC1, None), writes = sconst None,
               closes = sconst None, clock = sconst 0,
               trace = [EvReadRegU8 0x10, EvWriteRegU8 0x10 7]\<rparr>)"
    by (simp add: bus_double_def)
  with h1 h2 h3 show ?thesis by simp
qed

subsection \<open>Baud rate\<close>

lemma int_and_255: "(k::int) AND 0xFF = k mod 256"
proof -
  have "k AND mask 8 = take_bit 8 k" by (simp add: take_bit_eq_mask)
  then show ?thesis by (simp add: take_bit_eq_mod mask_eq_exp_minus_1)
qed

lemma int_and_FF00: "drop_bit 8 ((k::int) AND 0xFF00) = (k div 256) mod 256"
proof -
  have "drop_bit 8 (k AND 0xFF00) = drop_bit 8 k AND 0xFF" by simp
  then show ?thesis by (simp only: int_and_255) (simp add: drop_bit_eq_div)
qed

lemma unat_byte_of_int: "0 \<le> k \<Longrightarrow> unat (word_of_int k :: u8) = nat k mod 256"
  by (simp add: unat_eq_nat_uint uint_word_of_int nat_mod_distrib)

lemma lower_byte: "(word_of_int (uint (w :: u32) AND 0xFF) :: u8) = of_nat (unat w mod 256)"
proof -
  have "unat (word_of_int (uint w mod 256) :: u8) = nat (uint w mod 256) mod 256"
    by (rule unat_byte_of_int) simp
  also have "nat (uint w mod 256) = unat w mod 256"
    by (simp add: nat_mod_distrib)
  finally have "unat (word_of_int (uint w AND 0xFF) :: u8) = unat (of_nat (unat w mod 256) :: u8)"
    by (simp only: int_and_255) (simp add: unat_of_nat)
  then show ?thesis by (simp only: word_unat_eq_iff)
qed

lemma higher_byte:
  "(word_of_int (drop_bit 8 (uint (w :: u32) AND 0xFF00)) :: u8) = of_nat (unat w div 256 mod 256)"
proof -
  have "unat (word_of_int (uint w div 256 mod 256) :: u8) = nat (uint w div 256 mod 256) mod 256"
    by (rule unat_byte_of_int) simp
  also have "nat (uint w div 256 mod 256) = unat w div 256 mod 256"
    by (simp add: nat_mod_distrib nat_div_distrib pos_imp_zdiv_nonneg_iff)
  finally have "unat (word_of_int (drop_bit 8 (uint w AND 0xFF00)) :: u8) =
      unat (of_nat (unat w div 256 mod 256) :: u8)"
    by (simp only: int_and_FF00) (simp add: unat_of_nat)
  then show ?thesis by (simp only: word_unat_eq_iff)
qed

lemma higher_byte_nf:
  "(word_of_int (drop_bit 8 (uint (w :: u32)) AND 255) :: u8) = of_nat (unat w div 256 mod 256)"
  using higher_byte [of w] by simp

lemma unat_divisor:
  "unat ((x div p) div (b * 16) :: u32) = (unat x div unat p) div (unat b * 16 mod 2 ^ 32)"
  by (simp add: unat_div unat_word_ariths)

lemma updateRegBit_eq:
  "updateRegBit v reg flag val s =
     (case snd (shd (reads s)) of
        Some msg \<Rightarrow>
          (Some (I2CError msg),
           s\<lparr>reads := stl (reads s), trace := trace s @ [EvReadRegU8 (push_bit 3 reg)]\<rparr>)
      | None \<Rightarrow>
          (map_option I2CError (shd (writes s)),
           s\<lparr>reads := stl (reads s), writes := stl (writes s),
             trace := trace s @ [EvReadRegU8 (push_bit 3 reg),
               EvWriteRegU8 (push_bit 3 reg)
                 (if val then fst (shd (reads s)) OR push_bit (unat flag) 1
                  else fst (shd (reads s)) AND NOT (push_bit (unat flag) 1))]\<rparr>))"
  by (cases "shd (reads s)"; cases s)
    (simp add: updateRegBit_def readReg_eq writeReg_eq split: option.splits)

text \<open>
  Claim C2, as amended. The product \<open>baud * 16\<close> is a \<^verbatim>\<open>uint32\<close> product and wraps. When it
  is not zero and the bus transactions of \<open>setBaudRate\<close> all succeed, the divisor is
  \<open>(xtalFreq div prescaler) div (baud * 16 mod 2\<^sup>3\<^sup>2)\<close> with truncating divisions, where
  the prescaler is 4 if bit 7 of the Modem Control Register (register 4, address \<open>0x20\<close>)
  is set and 1 otherwise. For \<open>baud < 2\<^sup>2\<^sup>8\<close> the product does not wrap, and the divisor
  is \<open>(xtalFreq div prescaler) div (baud * 16)\<close>. The low byte of the divisor is written
  to the divisor latch LSB (address \<open>0x00\<close>) and its second byte to the divisor latch MSB
  (address \<open>0x08\<close>), between setting and clearing bit 7 of the Line Control Register.
  For a crystal of 14745600 Hz, 9600 baud and prescaler 1 the divisor is 96 and the two
  bytes are 96 and 0.
\<close>

theorem setBaudRate_divisor:
  assumes "reads s = (mcr, None) ## (lcr1, None) ## (lcr2, None) ## rs"
    and "writes s = None ## None ## None ## None ## ws"
    and "baud * 16 \<noteq> 0"
  shows "let prescaler = (if bit mcr 7 then 4 else 1);
             divisor = (unat (xtalFreq v) div prescaler) div (unat baud * 16 mod 2 ^ 32)
         in (unat baud < 2 ^ 28 \<longrightarrow>
               divisor = (unat (xtalFreq v) div prescaler) div (unat baud * 16))
          \<and> setBaudRate v baud s =
               (Return None,
                s\<lparr>reads := rs, writes := ws,
                  trace := trace s @
                    [EvReadRegU8 0x20,
                     EvReadRegU8 0x18, EvWriteRegU8 0x18 (lcr1 OR 0x80),
                     EvWriteRegU8 0x00 (of_nat (divisor mod 256)),
                     EvWriteRegU8 0x08 (of_nat (divisor div 256 mod 256)),
                     EvReadRegU8 0x18, EvWriteRegU8 0x18 (lcr2 AND NOT 0x80)]\<rparr>)
          \<and> (xtalFreq v = 14745600 \<and> baud = 9600 \<and> \<not> bit mcr 7 \<longrightarrow>
               divisor = 96 \<and> divisor mod 256 = 96 \<and> divisor div 256 mod 256 = 0)"
proof -
  define p :: u32 where "p = (if bit mcr 7 then 4 else 1)"
  define d :: u32 where "d = (xtalFreq v div p) div (baud * 16)"
  have up: "unat p = (if bit mcr 7 then 4 else 1)" by (simp add: p_def)
  have ud: "unat d = (unat (xtalFreq v) div unat p) div (unat baud * 16 mod 2 ^ 32)"
    unfolding d_def by (rule unat_divisor)
  have run: "setBaudRate v baud s =
               (Return None,
                s\<lparr>reads := rs, writes := ws,
                  trace := trace s @
                    [EvReadRegU8 0x20,
                     EvReadRegU8 0x18, EvWriteRegU8 0x18 (lcr1 OR 0x80),
                     EvWriteRegU8 0x00 (of_nat (unat d mod 256)),
                     EvWriteRegU8 0x08 (of_nat (unat d div 256 mod 256)),
                     EvReadRegU8 0x18, EvWriteRegU8 0x18 (lcr2 AND NOT 0x80)]\<rparr>)"
    using assms
    by (cases s)
      (simp add: setBaudRate_def peekRegBit_eq updateRegBit_eq writeReg_eq reg_defs
        Let_def lower_byte higher_byte_nf d_def p_def)
  have small: "unat baud < 2 ^ 28 \<Longrightarrow> unat baud * 16 mod 2 ^ 32 = unat baud * 16"
    by simp
  have ex: "(14745600 div 1) div (9600 * 16 mod 2 ^ 32) = (96 :: nat)" by simp
  show ?thesis
    unfolding Let_def using run small ex by (auto simp add: ud up)
qed


theorem setBaudRate_divisor_witness:
  "(9600 :: u32) * 16 \<noteq> 0
   \<and> setBaudRate dev0 9600
       (bus_double ((0, None) ## (0x03, None) ## (0x83, None) ## sconst (0, None))
          (None ## None ## None ## None ## sconst None) (sconst 0)) =
       (Return None,
        \<lparr>opens = sconst None, reads = sconst (0, None), writes = sconst None,
          closes = sconst None, clock = sconst 0,
          trace = [EvReadRegU8 0x20, EvReadRegU8 0x18, EvWriteRegU8 0x18 0x83,
                   EvWriteRegU8 0x00 96, EvWriteRegU8 0x08 0,
                   EvReadRegU8 0x18, EvWriteRegU8 0x18 0x03]\<rparr>)"
proof -
  let ?w = "bus_double ((0, None) ## (0x03, None) ## (0x83, None) ## sconst (0, None))
          (None ## None ## None ## None ## sconst None) (sconst 0)"
  have h1: "reads ?w = (0, None) ## (0x03, None) ## (0x83, None) ## sconst (0, None)"
    by (simp add: bus_double_def)
  have h2: "writes ?w = None ## None ## None ## None ## sconst None"
    by (simp add: bus_double_def)
  have h3: "(9600 :: u32) * 16 \<noteq> 0" by simp
  from setBaudRate_divisor [OF h1 h2 h3, of dev0] h3 show ?thesis
    by (simp add: Let_def dev0_def bus_double_def)
qed

text \<open>
  Without the wrap-around the formula fails. For \<open>baud = 2\<^sup>2\<^sup>8 + 1\<close> the product
  \<open>baud * 16\<close> is 16 in \<^verbatim>\<open>uint32\<close>: with the crystal of 14745600 Hz and prescaler 1 the
  divisor is 921600 and the bytes written to the two latches are \<open>0x00\<close> and \<open>0x10\<close>,
  whereas \<open>(14745600 div 1) div (baud * 16)\<close> over the natural numbers is 0.
\<close>

theorem setBaudRate_divisor_counterexample:
  "setBaudRate dev0 268435457
       (bus_double ((0, None) ## (0x03, None) ## (0x83, None) ## sconst (0, None))
          (None ## None ## None ## None ## sconst None) (sconst 0)) =
       (Return None,
        \<lparr>opens = sconst None, reads = sconst (0, None), writes = sconst None,
          closes = sconst None, clock = sconst 0,
          trace = [EvReadRegU8 0x20, EvReadRegU8 0x18, EvWriteRegU8 0x18 0x83,
                   EvWriteRegU8 0x00 0x00, EvWriteRegU8 0x08 0x10,
                   EvReadRegU8 0x18, EvWriteRegU8 0x18 0x03]\<rparr>)
   \<and> (14745600 div 1) div (268435457 * 16) = (0 :: nat)"
proof -
  have "setBaudRate dev0 268435457
       (bus_double ((0, None) ## (0x03, None) ## (0x83, None) ## sconst (0, None))
          (None ## None ## None ## None ## sconst None) (sconst 0)) =
       (Return None,
        \<lparr>opens = sconst None, reads = sconst (0, None), writes = sconst None,
          closes = sconst None, clock = sconst 0,
          trace = [EvReadRegU8 0x20, EvReadRegU8 0x18, EvWriteRegU8 0x18 0x83,
                   EvWriteRegU8 0x00 0x00, EvWriteRegU8 0x08 0x10,
                   EvReadRegU8 0x18, EvWriteRegU8 0x18 0x03]\<rparr>)"
    by (simp add: setBaudRate_def peekRegBit_eq updateRegBit_eq writeReg_eq reg_defs
        Let_def dev0_def bus_double_def)
  moreover have "(14745600 div 1) div (268435457 * 16) = (0 :: nat)" by simp
  ultimately show ?thesis by (rule conjI)
qed

subsection \<open>Opening the device\<close>

lemma bus_only_refl: "bus_only s s"
  by (simp add: bus_only_def)

lemma bus_only_trans: "bus_only s s1 \<Longrightarrow> bus_only s1 s2 \<Longrightarrow> bus_only s s2"
  by (auto simp add: bus_only_def)

lemma bus_only_readReg: "bus_only s (snd (readReg v reg s))"
  by (simp add: bus_only_def readReg_eq)

lemma bus_only_writeReg: "bus_only s (snd (writeReg v reg val s))"
  by (simp add: bus_only_def writeReg_eq)

lemma bus_only_readReg': "readReg v reg s = (r, s') \<Longrightarrow> bus_only s s'"
  using bus_only_readReg [of s v reg] by simp

lemma bus_only_writeReg': "writeReg v reg val s = (r, s') \<Longrightarrow> bus_only s s'"
  using bus_only_writeReg [of s v reg val] by simp

lemma bus_only_updateRegBit: "updateRegBit v reg flag val s = (r, s') \<Longrightarrow> bus_only s s'"
  unfolding updateRegBit_def
  by (auto split: prod.splits option.splits
      intro: bus_only_trans dest!: bus_only_readReg' bus_only_writeReg')

lemma bus_only_peekRegBit: "peekRegBit v reg flag s = (r, s') \<Longrightarrow> bus_only s s'"
  unfolding peekRegBit_def
  by (auto split: prod.splits option.splits dest!: bus_only_readReg')

lemma bus_only_testChip: "testChip v s = (r, s') \<Longrightarrow> bus_only s s'"
  unfolding testChip_def
  by (auto split: prod.splits option.splits if_splits
      intro: bus_only_trans dest!: bus_only_readReg' bus_only_writeReg')

lemma bus_only_enableFifo: "enableFifo v b s = (r, s') \<Longrightarrow> bus_only s s'"
  unfolding enableFifo_def
  by (auto split: if_splits dest!: bus_only_writeReg')

lemma bus_only_setUARTAttributes:
  "setUARTAttributes v dataBits stopBits parity s = (r, s') \<Longrightarrow> bus_only s s'"
  unfolding setUARTAttributes_def Let_def
  by (auto split: option.splits intro: bus_only_refl dest!: bus_only_writeReg')

lemma bus_only_ClearFifo: "ClearFifo v t s = (r, s') \<Longrightarrow> bus_only s s'"
  unfolding ClearFifo_def Let_def
  by (auto split: prod.splits option.splits
      intro: bus_only_trans dest!: bus_only_readReg' bus_only_writeReg')

lemma bus_only_setBaudRate: "setBaudRate v baud s = (r, s') \<Longrightarrow> bus_only s s'"
  unfolding setBaudRate_def Let_def
  by (auto split: prod.splits option.splits if_splits
      dest!: bus_only_peekRegBit bus_only_updateRegBit bus_only_writeReg';
      blast intro: bus_only_trans)

lemma Open_body:
  assumes "NewI2C (Address conf) (if Bus conf = 0 then 1 else Bus conf) s = (Inr h, s0)"
    and "d = \<lparr>dev = h, xtalFreq = XtalFreq conf,
               timeout = (if Timeout conf = 0 then 1 * 1000000000 else Timeout conf)\<rparr>"
  shows "Open conf s =
     (case testChip d s0 of
        (Some err, s1) \<Rightarrow> (Return (None, Some err), snd (Close d s1))
      | (None, s1) \<Rightarrow>
     (case setBaudRate d (Baud conf) s1 of
        (PanicDivideByZero, s2) \<Rightarrow> (PanicDivideByZero, s2)
      | (Return (Some err), s2) \<Rightarrow> (Return (None, Some err), snd (Close d s2))
      | (Return None, s2) \<Rightarrow>
     (case enableFifo d True s2 of
        (Some err, s3) \<Rightarrow> (Return (None, Some err), snd (Close d s3))
      | (None, s3) \<Rightarrow>
     (case setUARTAttributes d (if Size conf = 0 then DefaultSize else Size conf)
             (if StopBits conf = 0 then Stop1 else StopBits conf)
             (if Parity conf = 0 then ParityNone else Parity conf) s3 of
        (Some err, s4) \<Rightarrow> (Return (None, Some err), snd (Close d s4))
      | (None, s4) \<Rightarrow>
     (case ClearFifo d BothFifo s4 of
        (Some err, s5) \<Rightarrow> (Return (None, Some err), snd (Close d s5))
      | (None, s5) \<Rightarrow> (Return (Some d, None), s5))))))"
  by (simp only: Open_def Let_def assms prod.case sum.case)

lemma close_after:
  assumes "bus_only s0 sk"
  shows "closes (snd (Close d sk)) = stl (closes s0) \<and>
         (\<exists>evs. trace (snd (Close d sk)) = trace s0 @ evs @ [EvClose] \<and> EvClose \<notin> set evs)"
  using assms by (auto simp add: bus_only_def Close_def I2C_Close_def)

lemma Open_error_closes_once:
  assumes o: "NewI2C (Address conf) (if Bus conf = 0 then 1 else Bus conf) s = (Inr h, s0)"
    and d: "d = \<lparr>dev = h, xtalFreq = XtalFreq conf,
               timeout = (if Timeout conf = 0 then 1 * 1000000000 else Timeout conf)\<rparr>"
    and r: "Open conf s = (Return (dv, Some e), s')"
  shows "dv = None \<and> closes s' = stl (closes s0) \<and>
         (\<exists>evs. trace s' = trace s0 @ evs @ [EvClose] \<and> EvClose \<notin> set evs)"
proof -
  obtain r1 s1 where t1: "testChip d s0 = (r1, s1)" by (cases "testChip d s0")
  have b1: "bus_only s0 s1" using t1 by (rule bus_only_testChip)
  show ?thesis
  proof (cases r1)
    case (Some e1)
    with r t1 close_after [OF b1, of d] show ?thesis
      by (simp add: Open_body [OF o d])
  next
    case None
    note n1 = this
    obtain r2 s2 where t2: "setBaudRate d (Baud conf) s1 = (r2, s2)"
      by (cases "setBaudRate d (Baud conf) s1")
    have b2: "bus_only s0 s2" using b1 t2 by (blast intro: bus_only_trans bus_only_setBaudRate)
    show ?thesis
    proof (cases r2)
      case PanicDivideByZero
      with r t1 n1 t2 show ?thesis by (simp add: Open_body [OF o d])
    next
      case (Return e2)
      note ret = this
      show ?thesis
      proof (cases e2)
        case (Some e2')
        with r t1 n1 t2 ret close_after [OF b2, of d] show ?thesis
          by (simp add: Open_body [OF o d])
      next
        case None
        note n2 = this
        obtain r3 s3 where t3: "enableFifo d True s2 = (r3, s3)"
          by (cases "enableFifo d True s2")
        have b3: "bus_only s0 s3" using b2 t3 by (blast intro: bus_only_trans bus_only_enableFifo)
        show ?thesis
        proof (cases r3)
          case (Some e3)
          with r t1 n1 t2 ret n2 t3 close_after [OF b3, of d] show ?thesis
            by (simp add: Open_body [OF o d])
        next
          case None
          note n3 = this
          obtain r4 s4 where t4: "setUARTAttributes d (if Size conf = 0 then DefaultSize else Size conf)
             (if StopBits conf = 0 then Stop1 else StopBits conf)
             (if Parity conf = 0 then ParityNone else Parity conf) s3 = (r4, s4)"
            by (cases "setUARTAttributes d (if Size conf = 0 then DefaultSize else Size conf)
             (if StopBits conf = 0 then Stop1 else StopBits conf)
             (if Parity conf = 0 then ParityNone else Parity conf) s3")
          have b4: "bus_only s0 s4"
            using b3 t4 by (blast intro: bus_only_trans bus_only_setUARTAttributes)
          show ?thesis
          proof (cases r4)
            case (Some e4)
            with r t1 n1 t2 ret n2 t3 n3 t4 close_after [OF b4, of d] show ?thesis
              by (simp add: Open_body [OF o d])
          next
            case None
            note n4 = this
            obtain r5 s5 where t5: "ClearFifo d BothFifo s4 = (r5, s5)"
              by (cases "ClearFifo d BothFifo s4")
            have b5: "bus_only s0 s5"
              using b4 t5 by (blast intro: bus_only_trans bus_only_ClearFifo)
            show ?thesis
            proof (cases r5)
              case (Some e5)
              with r t1 n1 t2 ret n2 t3 n3 t4 n4 t5 close_after [OF b5, of d] show ?thesis
                by (simp add: Open_body [OF o d])
            next
              case None
              with r t1 n1 t2 ret n2 t3 n3 t4 n4 t5 show ?thesis
                by (simp add: Open_body [OF o d])
            qed
          qed
        qed
      qed
    qed
  qed
qed

lemma Close_eq:
  "snd (Close d s) = s\<lparr>closes := stl (closes s), trace := trace s @ [EvClose]\<rparr>"
  by (simp add: Close_def I2C_Close_def)

lemma testChip_mismatch:
  assumes "shd (writes s) = None" "snd (shd (reads s)) = None" "fst (shd (reads s)) \<noteq> testValue"
  shows "testChip v s =
     (Some ErrorScratchpad,
      s\<lparr>reads := stl (reads s), writes := stl (writes s),
        trace := trace s @ [EvWriteRegU8 0x38 0xde, EvReadRegU8 0x38]\<rparr>)"
  using assms
  by (cases "shd (reads s)"; cases s)
    (simp add: testChip_def readReg_eq writeReg_eq regSPR_def testValue_def)

text \<open>
  Claim C3. Let \<open>Open\<close> have obtained the handle \<open>h\<close>, and let \<open>d\<close> be the device it
  builds. If one of the five steps (self-test, baud rate, FIFO enable, line attributes,
  clearing both FIFOs) returns an error after the steps before it succeeded, \<open>Open\<close>
  returns that error and no device, in the world the failed step left, with one close
  appended. Whenever \<open>Open\<close> returns an error after the handle was obtained, no device is
  returned, exactly one answer to a close has been consumed, and the trace is the one
  before the call, the \<open>NewI2C\<close> event, events that are not closes, and one final close.
  When the scratchpad write succeeds and the read-back succeeds with a byte other than
  \<open>0xde\<close>, \<open>Open\<close> returns \<open>ErrorScratchpad\<close> and the bus has seen only the scratchpad
  write, the scratchpad read and the close: nothing of the later steps.
\<close>

theorem Open_failure:
  assumes o: "NewI2C (Address conf) (if Bus conf = 0 then 1 else Bus conf) s = (Inr h, s0)"
    and d: "d = \<lparr>dev = h, xtalFreq = XtalFreq conf,
               timeout = (if Timeout conf = 0 then 1 * 1000000000 else Timeout conf)\<rparr>"
  shows
   "(testChip d s0 = (Some e, s1) \<longrightarrow>
       Open conf s =
         (Return (None, Some e), s1\<lparr>closes := stl (closes s1), trace := trace s1 @ [EvClose]\<rparr>))
    \<and> (testChip d s0 = (None, s1) \<and> setBaudRate d (Baud conf) s1 = (Return (Some e), s2) \<longrightarrow>
       Open conf s =
         (Return (None, Some e), s2\<lparr>closes := stl (closes s2), trace := trace s2 @ [EvClose]\<rparr>))
    \<and> (testChip d s0 = (None, s1) \<and> setBaudRate d (Baud conf) s1 = (Return None, s2) \<and>
        enableFifo d True s2 = (Some e, s3) \<longrightarrow>
       Open conf s =
         (Return (None, Some e), s3\<lparr>closes := stl (closes s3), trace := trace s3 @ [EvClose]\<rparr>))
    \<and> (testChip d s0 = (None, s1) \<and> setBaudRate d (Baud conf) s1 = (Return None, s2) \<and>
        enableFifo d True s2 = (None, s3) \<and>
        setUARTAttributes d (if Size conf = 0 then DefaultSize else Size conf)
          (if StopBits conf = 0 then Stop1 else StopBits conf)
          (if Parity conf = 0 then ParityNone else Parity conf) s3 = (Some e, s4) \<longrightarrow>
       Open conf s =
         (Return (None, Some e), s4\<lparr>closes := stl (closes s4), trace := trace s4 @ [EvClose]\<rparr>))
    \<and> (testChip d s0 = (None, s1) \<and> setBaudRate d (Baud conf) s1 = (Return None, s2) \<and>
        enableFifo d True s2 = (None, s3) \<and>
        setUARTAttributes d (if Size conf = 0 then DefaultSize else Size conf)
          (if StopBits conf = 0 then Stop1 else StopBits conf)
          (if Parity conf = 0 then ParityNone else Parity conf) s3 = (None, s4) \<and>
        ClearFifo d BothFifo s4 = (Some e, s5) \<longrightarrow>
       Open conf s =
         (Return (None, Some e), s5\<lparr>closes := stl (closes s5), trace := trace s5 @ [EvClose]\<rparr>))
    \<and> (\<forall>dv err s'. Open conf s = (Return (dv, Some err), s') \<longrightarrow>
          dv = None \<and> closes s' = stl (closes s) \<and>
          (\<exists>evs. trace s' =
                   trace s @ [EvNewI2C (Address conf) (if Bus conf = 0 then 1 else Bus conf)] @
                   evs @ [EvClose] \<and>
                 EvClose \<notin> set evs))
    \<and> (shd (writes s0) = None \<and> snd (shd (reads s0)) = None \<and>
        fst (shd (reads s0)) \<noteq> testValue \<longrightarrow>
       Open conf s =
         (Return (None, Some ErrorScratchpad),
          s0\<lparr>reads := stl (reads s0), writes := stl (writes s0), closes := stl (closes s0),
            trace := trace s0 @ [EvWriteRegU8 0x38 0xde, EvReadRegU8 0x38, EvClose]\<rparr>))"
proof -
  note body = Open_body [OF o d]
  have a1: "testChip d s0 = (Some e, s1) \<longrightarrow>
       Open conf s =
         (Return (None, Some e), s1\<lparr>closes := stl (closes s1), trace := trace s1 @ [EvClose]\<rparr>)"
    by (simp add: body Close_eq)
  have a2: "testChip d s0 = (None, s1) \<and> setBaudRate d (Baud conf) s1 = (Return (Some e), s2) \<longrightarrow>
       Open conf s =
         (Return (None, Some e), s2\<lparr>closes := stl (closes s2), trace := trace s2 @ [EvClose]\<rparr>)"
    by (simp add: body Close_eq)
  have a3: "testChip d s0 = (None, s1) \<and> setBaudRate d (Baud conf) s1 = (Return None, s2) \<and>
        enableFifo d True s2 = (Some e, s3) \<longrightarrow>
       Open conf s =
         (Return (None, Some e), s3\<lparr>closes := stl (closes s3), trace := trace s3 @ [EvClose]\<rparr>)"
    by (simp add: body Close_eq)
  have a4: "testChip d s0 = (None, s1) \<and> setBaudRate d (Baud conf) s1 = (Return None, s2) \<and>
        enableFifo d True s2 = (None, s3) \<and>
        setUARTAttributes d (if Size conf = 0 then DefaultSize else Size conf)
          (if StopBits conf = 0 then Stop1 else StopBits conf)
          (if Parity conf = 0 then ParityNone else Parity conf) s3 = (Some e, s4) \<longrightarrow>
       Open conf s =
         (Return (None, Some e), s4\<lparr>closes := stl (closes s4), trace := trace s4 @ [EvClose]\<rparr>)"
    by (simp add: body Close_eq)
  have a5: "testChip d s0 = (None, s1) \<and> setBaudRate d (Baud conf) s1 = (Return None, s2) \<and>
        enableFifo d True s2 = (None, s3) \<and>
        setUARTAttributes d (if Size conf = 0 then DefaultSize else Size conf)
          (if StopBits conf = 0 then Stop1 else StopBits conf)
          (if Parity conf = 0 then ParityNone else Parity conf) s3 = (None, s4) \<and>
        ClearFifo d BothFifo s4 = (Some e, s5) \<longrightarrow>
       Open conf s =
         (Return (None, Some e), s5\<lparr>closes := stl (closes s5), trace := trace s5 @ [EvClose]\<rparr>)"
    by (simp add: body Close_eq)
  have s0: "closes s0 = closes s"
    "trace s0 = trace s @ [EvNewI2C (Address conf) (if Bus conf = 0 then 1 else Bus conf)]"
    using o by (auto simp add: NewI2C_def Let_def split: option.splits)
  have b: "\<forall>dv err s'. Open conf s = (Return (dv, Some err), s') \<longrightarrow>
          dv = None \<and> closes s' = stl (closes s) \<and>
          (\<exists>evs. trace s' =
                   trace s @ [EvNewI2C (Address conf) (if Bus conf = 0 then 1 else Bus conf)] @
                   evs @ [EvClose] \<and>
                 EvClose \<notin> set evs)"
    using Open_error_closes_once [OF o d] unfolding s0 by simp
  have c: "shd (writes s0) = None \<and> snd (shd (reads s0)) = None \<and>
        fst (shd (reads s0)) \<noteq> testValue \<longrightarrow>
       Open conf s =
         (Return (None, Some ErrorScratchpad),
          s0\<lparr>reads := stl (reads s0), writes := stl (writes s0), closes := stl (closes s0),
            trace := trace s0 @ [EvWriteRegU8 0x38 0xde, EvReadRegU8 0x38, EvClose]\<rparr>)"
    by (cases s0) (auto simp add: body Close_eq testChip_mismatch)
  from a1 a2 a3 a4 a5 b c show ?thesis by (intro conjI)
qed

theorem Open_failure_witness:
  "Open conf0 (bus_double (sconst (0, None)) (sconst None) (sconst 0)) =
   (Return (None, Some ErrorScratchpad),
    \<lparr>opens = sconst None, reads = sconst (0, None), writes = sconst None,
      closes = sconst None, clock = sconst 0,
      trace = [EvNewI2C 0x48 1, EvWriteRegU8 0x38 0xde, EvReadRegU8 0x38, EvClose]\<rparr>)"
proof -
  let ?w = "bus_double (sconst (0, None)) (sconst None) (sconst 0)"
  let ?s0 = "\<lparr>opens = sconst None, reads = sconst (0, None),
      writes = sconst None, closes = sconst None, clock = sconst 0,
      trace = [EvNewI2C 0x48 1]\<rparr>"
  have o: "NewI2C (Address conf0) (if Bus conf0 = 0 then 1 else Bus conf0) ?w =
      (Inr \<lparr>i2c_addr = 0x48, i2c_bus = 1\<rparr>, ?s0)"
    by (simp add: conf0_def NewI2C_def bus_double_def)
  have m: "shd (writes ?s0) = None \<and> snd (shd (reads ?s0)) = None \<and>
        fst (shd (reads ?s0)) \<noteq> testValue"
    by (simp add: testValue_def)
  from Open_failure [OF o refl, of _ _ _ _ _ _] m
  have "Open conf0 ?w =
         (Return (None, Some ErrorScratchpad),
          ?s0\<lparr>reads := stl (reads ?s0), writes := stl (writes ?s0), closes := stl (closes ?s0),
            trace := trace ?s0 @ [EvWriteRegU8 0x38 0xde, EvReadRegU8 0x38, EvClose]\<rparr>)"
    by blast
  then show ?thesis by simp
qed


text \<open>
  Claim C9. \<open>setBaudRate\<close> with \<open>baud = 0\<close> never completes normally: it reads the Modem
  Control Register and then, if that read succeeded, panics with an integer division by
  zero instead of returning an error (it returns an error only when the read itself
  failed). \<open>Open\<close> passes \<open>Baud\<close> on as it is, so a configuration with \<open>Baud = 0\<close> whose
  self-test passes ends in the same panic, with the handle left open.
\<close>

theorem setBaudRate_zero_baud:
  "setBaudRate v 0 s =
     (case snd (shd (reads s)) of
        Some msg \<Rightarrow> Return (Some (I2CError msg))
      | None \<Rightarrow> PanicDivideByZero,
      s\<lparr>reads := stl (reads s), trace := trace s @ [EvReadRegU8 0x20]\<rparr>)
   \<and> (Baud conf = 0 \<and>
      NewI2C (Address conf) (if Bus conf = 0 then 1 else Bus conf) s = (Inr h, s0) \<and>
      testChip \<lparr>dev = h, xtalFreq = XtalFreq conf,
                 timeout = (if Timeout conf = 0 then 1 * 1000000000 else Timeout conf)\<rparr> s0 =
        (None, s1) \<and>
      snd (shd (reads s1)) = None \<longrightarrow>
      Open conf s =
        (PanicDivideByZero,
         s1\<lparr>reads := stl (reads s1), trace := trace s1 @ [EvReadRegU8 0x20]\<rparr>))"
proof -
  have z: "\<And>v s. setBaudRate v 0 s =
     (case snd (shd (reads s)) of
        Some msg \<Rightarrow> Return (Some (I2CError msg))
      | None \<Rightarrow> PanicDivideByZero,
      s\<lparr>reads := stl (reads s), trace := trace s @ [EvReadRegU8 0x20]\<rparr>)"
    subgoal for v s
      by (cases "shd (reads s)"; cases s)
        (simp add: setBaudRate_def peekRegBit_eq regMCR_def split: option.splits)
    done
  have "Open conf s =
        (PanicDivideByZero,
         s1\<lparr>reads := stl (reads s1), trace := trace s1 @ [EvReadRegU8 0x20]\<rparr>)"
    if "Baud conf = 0"
      and o: "NewI2C (Address conf) (if Bus conf = 0 then 1 else Bus conf) s = (Inr h, s0)"
      and t: "testChip \<lparr>dev = h, xtalFreq = XtalFreq conf,
                 timeout = (if Timeout conf = 0 then 1 * 1000000000 else Timeout conf)\<rparr> s0 =
        (None, s1)"
      and r: "snd (shd (reads s1)) = None"
    using that by (simp add: Open_body [OF o refl] z)
  with z [of v s] show ?thesis by blast
qed


theorem setBaudRate_zero_baud_witness:
  "Open (conf0\<lparr>Baud := 0\<rparr>)
     (bus_double ((0xde, None) ## sconst (0, None)) (sconst None) (sconst 0)) =
   (PanicDivideByZero,
    \<lparr>opens = sconst None, reads = sconst (0, None), writes = sconst None,
      closes = sconst None, clock = sconst 0,
      trace = [EvNewI2C 0x48 1, EvWriteRegU8 0x38 0xde, EvReadRegU8 0x38,
               EvReadRegU8 0x20]\<rparr>)"
proof -
  let ?w = "bus_double ((0xde, None) ## sconst (0, None)) (sconst None) (sconst 0)"
  let ?s0 = "\<lparr>opens = sconst None, reads = (0xde, None) ## sconst (0, None),
      writes = sconst None, closes = sconst None, clock = sconst 0,
      trace = [EvNewI2C 0x48 1]\<rparr>"
  let ?s1 = "\<lparr>opens = sconst None, reads = sconst (0, None),
      writes = sconst None, closes = sconst None, clock = sconst 0,
      trace = [EvNewI2C 0x48 1, EvWriteRegU8 0x38 0xde, EvReadRegU8 0x38]\<rparr>"
  let ?c = "conf0\<lparr>Baud := 0\<rparr>"
  have b: "Baud ?c = 0" by simp
  have o: "NewI2C (Address ?c) (if Bus ?c = 0 then 1 else Bus ?c) ?w =
      (Inr \<lparr>i2c_addr = 0x48, i2c_bus = 1\<rparr>, ?s0)"
    by (simp add: conf0_def NewI2C_def bus_double_def)
  have t: "testChip \<lparr>dev = \<lparr>i2c_addr = 0x48, i2c_bus = 1\<rparr>, xtalFreq = XtalFreq ?c,
                 timeout = (if Timeout ?c = 0 then 1 * 1000000000 else Timeout ?c)\<rparr> ?s0 =
        (None, ?s1)"
    by (simp add: testChip_def readReg_eq writeReg_eq regSPR_def testValue_def)
  have r: "snd (shd (reads ?s1)) = None" by simp
  from setBaudRate_zero_baud [of dev0 ?w ?c _ ?s0 ?s1] b o t r
  show ?thesis by simp
qed


subsection \<open>The poll loop of WriteByte\<close>

lemma after_polls_0: "after_polls 0 s = s"
  by (simp add: after_polls_def)

lemma after_polls_Suc:
  "(after_polls n s)\<lparr>reads := stl (reads (after_polls n s)),
       clock := stl (clock (after_polls n s)),
       trace := trace (after_polls n s) @ [EvReadRegU8 0x28]\<rparr> = after_polls (Suc n) s"
  by (simp add: after_polls_def replicate_append_same)

lemma after_polls_sel:
  "shd (reads (after_polls n s)) = reads s !! n"
  "shd (clock (after_polls n s)) = clock s !! n"
  by (simp_all add: after_polls_def)

lemma WriteByte_poll_clear:
  assumes "snd (shd (reads s)) = None" "\<not> bit (fst (shd (reads s))) 5" "shd (clock s) \<le> T"
  shows "WriteByte_poll v T s =
         WriteByte_poll v T (s\<lparr>reads := stl (reads s), clock := stl (clock s),
            trace := trace s @ [EvReadRegU8 0x28]\<rparr>)"
  using assms
  by (subst WriteByte_poll.simps, cases s) (simp add: peekRegBit_eq Now_def regLSR_def)

lemma WriteByte_poll_ready:
  assumes "snd (shd (reads s)) = None" "bit (fst (shd (reads s))) 5"
  shows "WriteByte_poll v T s =
         Some (None, s\<lparr>reads := stl (reads s), trace := trace s @ [EvReadRegU8 0x28]\<rparr>)"
  using assms
  by (subst WriteByte_poll.simps, cases s) (simp add: peekRegBit_eq Now_def regLSR_def)

lemma WriteByte_poll_error:
  assumes "snd (shd (reads s)) = Some msg"
  shows "WriteByte_poll v T s =
         Some (Some (I2CError msg),
               s\<lparr>reads := stl (reads s), trace := trace s @ [EvReadRegU8 0x28]\<rparr>)"
  using assms
  by (subst WriteByte_poll.simps, cases s) (simp add: peekRegBit_eq Now_def regLSR_def)


lemma WriteByte_poll_advance:
  assumes "\<forall>k<n. snd (reads s !! k) = None \<and> \<not> bit (fst (reads s !! k)) 5 \<and> clock s !! k \<le> T"
  shows "WriteByte_poll v T s = WriteByte_poll v T (after_polls n s)"
  using assms
proof (induction n)
  case 0
  show ?case by (simp add: after_polls_0)
next
  case (Suc n)
  then have "WriteByte_poll v T s = WriteByte_poll v T (after_polls n s)" by simp
  also have "\<dots> = WriteByte_poll v T (after_polls (Suc n) s)"
    using Suc.prems WriteByte_poll_clear [of "after_polls n s" T v]
    by (simp add: after_polls_Suc after_polls_sel)
  finally show ?case .
qed


text \<open>WriteByte as a whole: the world after the clock has been read at entry.\<close>

lemma WriteByte_unfold:
  "WriteByte v c s =
     (case WriteByte_poll v (shd (clock s) + timeout v) (s\<lparr>clock := stl (clock s)\<rparr>) of
        None \<Rightarrow> None
      | Some (Some err, s1) \<Rightarrow> Some (Some err, s1)
      | Some (None, s1) \<Rightarrow> Some (writeReg v regTHR c s1))"
  by (simp add: WriteByte_def Now_def)

lemma entry_sel:
  "reads (s\<lparr>clock := stl (clock s)\<rparr>) !! k = reads s !! k"
  "clock (s\<lparr>clock := stl (clock s)\<rparr>) !! k = clock s !! Suc k"
  by simp_all

lemma WriteByte_ready:
  assumes "\<forall>k<n. snd (reads s !! k) = None \<and> \<not> bit (fst (reads s !! k)) 5 \<and>
             clock s !! Suc k \<le> shd (clock s) + timeout v"
    and "snd (reads s !! n) = None" "bit (fst (reads s !! n)) 5"
  shows "WriteByte v c s =
     Some (map_option I2CError (shd (writes s)),
           s\<lparr>reads := sdrop (Suc n) (reads s), writes := stl (writes s),
             clock := sdrop (Suc n) (clock s),
             trace := trace s @ replicate (Suc n) (EvReadRegU8 0x28) @ [EvWriteRegU8 0x00 c]\<rparr>)"
proof -
  let ?s0 = "s\<lparr>clock := stl (clock s)\<rparr>"
  let ?T = "shd (clock s) + timeout v"
  have "WriteByte_poll v ?T ?s0 = WriteByte_poll v ?T (after_polls n ?s0)"
    using assms(1) by (intro WriteByte_poll_advance) simp
  also have "\<dots> = Some (None, (after_polls n ?s0)\<lparr>reads := stl (reads (after_polls n ?s0)),
      trace := trace (after_polls n ?s0) @ [EvReadRegU8 0x28]\<rparr>)"
    using assms(2,3) by (intro WriteByte_poll_ready) (simp_all add: after_polls_sel)
  finally show ?thesis
    by (cases s)
      (simp add: WriteByte_unfold writeReg_eq regTHR_def after_polls_def replicate_append_same)
qed


lemma WriteByte_bus_error:
  assumes "\<forall>k<n. snd (reads s !! k) = None \<and> \<not> bit (fst (reads s !! k)) 5 \<and>
             clock s !! Suc k \<le> shd (clock s) + timeout v"
    and "snd (reads s !! n) = Some msg"
  shows "WriteByte v c s =
     Some (Some (I2CError msg),
           s\<lparr>reads := sdrop (Suc n) (reads s), clock := sdrop (Suc n) (clock s),
             trace := trace s @ replicate (Suc n) (EvReadRegU8 0x28)\<rparr>)"
proof -
  let ?s0 = "s\<lparr>clock := stl (clock s)\<rparr>"
  let ?T = "shd (clock s) + timeout v"
  have "WriteByte_poll v ?T ?s0 = WriteByte_poll v ?T (after_polls n ?s0)"
    using assms(1) by (intro WriteByte_poll_advance) simp
  also have "\<dots> = Some (Some (I2CError msg),
      (after_polls n ?s0)\<lparr>reads := stl (reads (after_polls n ?s0)),
      trace := trace (after_polls n ?s0) @ [EvReadRegU8 0x28]\<rparr>)"
    using assms(2) by (intro WriteByte_poll_error) (simp_all add: after_polls_sel)
  finally show ?thesis
    by (cases s) (simp add: WriteByte_unfold after_polls_def replicate_append_same)
qed



subsection \<open>The poll loop of Read\<close>

lemma Read_poll_clear:
  assumes "snd (shd (reads s)) = None" "\<not> bit (fst (shd (reads s))) 0" "shd (clock s) \<le> T"
  shows "Read_poll v T s =
         Read_poll v T (s\<lparr>reads := stl (reads s), clock := stl (clock s),
            trace := trace s @ [EvReadRegU8 0x28]\<rparr>)"
  using assms
  by (subst Read_poll.simps, cases s) (simp add: peekRegBit_eq Now_def regLSR_def)

lemma Read_poll_ready:
  assumes "snd (shd (reads s)) = None" "bit (fst (shd (reads s))) 0"
  shows "Read_poll v T s =
         Some ((0, None), s\<lparr>reads := stl (reads s), trace := trace s @ [EvReadRegU8 0x28]\<rparr>)"
  using assms
  by (subst Read_poll.simps, cases s) (simp add: peekRegBit_eq Now_def regLSR_def)

lemma Read_poll_error:
  assumes "snd (shd (reads s)) = Some msg"
  shows "Read_poll v T s =
         Some ((- 1, Some (I2CError msg)),
               s\<lparr>reads := stl (reads s), trace := trace s @ [EvReadRegU8 0x28]\<rparr>)"
  using assms
  by (subst Read_poll.simps, cases s) (simp add: peekRegBit_eq Now_def regLSR_def)

lemma Read_poll_timeout:
  assumes "snd (shd (reads s)) = None" "\<not> bit (fst (shd (reads s))) 0" "T < shd (clock s)"
  shows "Read_poll v T s =
         Some ((- 2, Some ErrTimeout), s\<lparr>reads := stl (reads s), clock := stl (clock s),
            trace := trace s @ [EvReadRegU8 0x28]\<rparr>)"
  using assms
  by (subst Read_poll.simps, cases s) (simp add: peekRegBit_eq Now_def regLSR_def)

lemma Read_poll_advance:
  assumes "\<forall>k<n. snd (reads s !! k) = None \<and> \<not> bit (fst (reads s !! k)) 0 \<and> clock s !! k \<le> T"
  shows "Read_poll v T s = Read_poll v T (after_polls n s)"
  using assms
proof (induction n)
  case 0
  show ?case by (simp add: after_polls_0)
next
  case (Suc n)
  then have "Read_poll v T s = Read_poll v T (after_polls n s)" by simp
  also have "\<dots> = Read_poll v T (after_polls (Suc n) s)"
    using Suc.prems Read_poll_clear [of "after_polls n s" T v]
    by (simp add: after_polls_Suc after_polls_sel)
  finally show ?case .
qed

text \<open>What a result of the poll loop can be: \<open>(0, nil)\<close>, \<open>-1\<close> with a bus error, or \<open>-2\<close>
  with the timeout error, the last only after a clock reading beyond the deadline.\<close>

lemma Read_poll_results:
  assumes "Read_poll v T s = Some y"
  shows "(fst y = (0, None) \<or> (\<exists>msg. fst y = (- 1, Some (I2CError msg))) \<or>
          fst y = (- 2, Some ErrTimeout)) \<and>
         (snd (fst y) = Some ErrTimeout \<longrightarrow>
           (\<exists>n. clock (snd y) = sdrop (Suc n) (clock s) \<and> T < clock s !! n))"
proof (rule Read_poll.raw_induct
    [where P = "\<lambda>v T s y. (fst y = (0, None) \<or> (\<exists>msg. fst y = (- 1, Some (I2CError msg))) \<or>
          fst y = (- 2, Some ErrTimeout)) \<and>
         (snd (fst y) = Some ErrTimeout \<longrightarrow>
           (\<exists>n. clock (snd y) = sdrop (Suc n) (clock s) \<and> T < clock s !! n))", OF _ assms])
  fix poll :: "SC16IS7X0 \<Rightarrow> int \<Rightarrow> world \<Rightarrow> ((int \<times> error option) \<times> world) option"
  fix v T s y
  assume ih: "\<And>v T s y. poll v T s = Some y \<Longrightarrow>
         (fst y = (0, None) \<or> (\<exists>msg. fst y = (- 1, Some (I2CError msg))) \<or>
          fst y = (- 2, Some ErrTimeout)) \<and>
         (snd (fst y) = Some ErrTimeout \<longrightarrow>
           (\<exists>n. clock (snd y) = sdrop (Suc n) (clock s) \<and> T < clock s !! n))"
  assume body: "(case peekRegBit v regLSR 0 s of
        ((available, Some err), s1) \<Rightarrow> Some ((- 1, Some err), s1)
      | ((available, None), s1) \<Rightarrow>
          if available then Some ((0, None), s1)
          else (case Now s1 of
                  (t, s2) \<Rightarrow>
                    if T < t then Some ((- 2, Some ErrTimeout), s2)
                    else poll v T s2)) = Some y"
  show "(fst y = (0, None) \<or> (\<exists>msg. fst y = (- 1, Some (I2CError msg))) \<or>
          fst y = (- 2, Some ErrTimeout)) \<and>
         (snd (fst y) = Some ErrTimeout \<longrightarrow>
           (\<exists>n. clock (snd y) = sdrop (Suc n) (clock s) \<and> T < clock s !! n))"
  proof (cases "snd (shd (reads s)) = None \<and> \<not> bit (fst (shd (reads s))) 0")
    case False
    with body show ?thesis
      by (cases s) (auto simp add: peekRegBit_eq regLSR_def split: if_splits)
  next
    case clear: True
    let ?s2 = "s\<lparr>reads := stl (reads s), clock := stl (clock s),
                  trace := trace s @ [EvReadRegU8 0x28]\<rparr>"
    show ?thesis
    proof (cases "T < shd (clock s)")
      case True
      with clear body have "y = ((- 2, Some ErrTimeout), ?s2)"
        by (cases s) (auto simp add: peekRegBit_eq regLSR_def Now_def)
      with True show ?thesis
        by (auto intro!: exI [of _ 0])
    next
      case False
      with clear body have "poll v T ?s2 = Some y"
        by (cases s) (auto simp add: peekRegBit_eq regLSR_def Now_def)
      from ih [OF this] have
        "(fst y = (0, None) \<or> (\<exists>msg. fst y = (- 1, Some (I2CError msg))) \<or>
          fst y = (- 2, Some ErrTimeout)) \<and>
         (snd (fst y) = Some ErrTimeout \<longrightarrow>
            (\<exists>n. clock (snd y) = sdrop (Suc (Suc n)) (clock s) \<and> T < clock s !! Suc n))"
        by simp
      then show ?thesis by blast
    qed
  qed
qed

subsection \<open>The copy loop of Read\<close>

lemma ReadByte_eq:
  "ReadByte v s =
     ((fst (shd (reads s)), map_option I2CError (snd (shd (reads s)))),
      s\<lparr>reads := stl (reads s), trace := trace s @ [EvReadRegU8 0x00]\<rparr>)"
  by (simp add: ReadByte_def readReg_eq regRHR_def)

lemma Read_copy_ok:
  assumes "i + m = r" "r \<le> length p" "\<forall>k<m. snd (reads s !! k) = None"
  shows "Read_copy v p (int r) (int i) s =
     ((int r, None),
      take i p @ map fst (stake m (reads s)) @ drop r p,
      s\<lparr>reads := sdrop m (reads s), trace := trace s @ replicate m (EvReadRegU8 0x00)\<rparr>)"
  using assms
proof (induction m arbitrary: i p s)
  case 0
  then show ?case by (subst Read_copy.simps) simp
next
  case (Suc m)
  let ?b = "fst (shd (reads s))"
  let ?s1 = "s\<lparr>reads := stl (reads s), trace := trace s @ [EvReadRegU8 0x00]\<rparr>"
  from Suc.prems have i: "i < r" "i < length p" and ok: "snd (shd (reads s)) = None"
    by auto
  have step: "Read_copy v p (int r) (int i) s = Read_copy v (p[i := ?b]) (int r) (int (Suc i)) ?s1"
    using i ok by (subst Read_copy.simps) (simp add: ReadByte_eq add.commute)
  have ih: "Read_copy v (p[i := ?b]) (int r) (int (Suc i)) ?s1 =
     ((int r, None),
      take (Suc i) (p[i := ?b]) @ map fst (stake m (reads ?s1)) @ drop r (p[i := ?b]),
      ?s1\<lparr>reads := sdrop m (reads ?s1), trace := trace ?s1 @ replicate m (EvReadRegU8 0x00)\<rparr>)"
    using Suc.prems by (intro Suc.IH) auto
  have buf: "take (Suc i) (p[i := ?b]) = take i p @ [?b]"
    using i by (simp add: take_Suc_conv_app_nth)
  have rest: "drop r (p[i := ?b]) = drop r p"
    using i by simp
  show ?case
    unfolding step ih buf rest
    by (cases s) (simp add: replicate_app_Cons_same)
qed

lemma Read_copy_fail:
  assumes "i + j < r" "r \<le> length p" "\<forall>k<j. snd (reads s !! k) = None"
    and "reads s !! j = (b, Some msg)"
  shows "Read_copy v p (int r) (int i) s =
     ((int (i + j), Some (I2CError msg)),
      (take i p @ map fst (stake j (reads s)) @ drop (i + j) p)[i + j := b],
      s\<lparr>reads := sdrop (Suc j) (reads s),
        trace := trace s @ replicate (Suc j) (EvReadRegU8 0x00)\<rparr>)"
  using assms
proof (induction j arbitrary: i p s)
  case 0
  then show ?case
    by (subst Read_copy.simps, cases s) (simp add: ReadByte_eq)
next
  case (Suc j)
  let ?b = "fst (shd (reads s))"
  let ?s1 = "s\<lparr>reads := stl (reads s), trace := trace s @ [EvReadRegU8 0x00]\<rparr>"
  from Suc.prems have i: "i < r" "i < length p" and ok: "snd (shd (reads s)) = None"
    by auto
  have step: "Read_copy v p (int r) (int i) s = Read_copy v (p[i := ?b]) (int r) (int (Suc i)) ?s1"
    using i ok by (subst Read_copy.simps) (simp add: ReadByte_eq add.commute)
  have ih: "Read_copy v (p[i := ?b]) (int r) (int (Suc i)) ?s1 =
     ((int (Suc i + j), Some (I2CError msg)),
      (take (Suc i) (p[i := ?b]) @ map fst (stake j (reads ?s1)) @
         drop (Suc i + j) (p[i := ?b]))[Suc i + j := b],
      ?s1\<lparr>reads := sdrop (Suc j) (reads ?s1),
        trace := trace ?s1 @ replicate (Suc j) (EvReadRegU8 0x00)\<rparr>)"
    using Suc.prems by (intro Suc.IH) auto
  have buf: "take (Suc i) (p[i := ?b]) = take i p @ [?b]"
    using i by (simp add: take_Suc_conv_app_nth)
  have rest: "drop (Suc i + j) (p[i := ?b]) = drop (Suc i + j) p"
    by simp
  show ?case
    unfolding step ih buf rest
    by (cases s) (simp add: replicate_app_Cons_same)
qed

text \<open>An error of the copy loop is the error of the read at the index it returns.\<close>

lemma Read_copy_error:
  assumes "Read_copy v p r i s = ((n, Some e), p', s')" "0 \<le> i"
  shows "i \<le> n \<and> n < r \<and>
         (\<exists>msg. e = I2CError msg \<and> snd (reads s !! nat (n - i)) = Some msg)"
  using assms
proof (induction v p r i s rule: Read_copy.induct)
  case (1 v p rlen i s)
  show ?case
  proof (cases "i < rlen")
    case False
    with "1.prems" show ?thesis by (subst (asm) Read_copy.simps) simp
  next
    case lt: True
    show ?thesis
    proof (cases "snd (shd (reads s))")
      case (Some msg)
      with lt "1.prems" show ?thesis
        by (subst (asm) Read_copy.simps) (auto simp add: ReadByte_eq)
    next
      case None
      let ?b = "fst (shd (reads s))"
      let ?s1 = "s\<lparr>reads := stl (reads s), trace := trace s @ [EvReadRegU8 0x00]\<rparr>"
      have rb: "ReadByte v s = ((?b, None), ?s1)" using None by (simp add: ReadByte_eq)
      from lt None "1.prems" have
        rec: "Read_copy v (p[nat i := ?b]) rlen (i + 1) ?s1 = ((n, Some e), p', s')"
        by (subst (asm) Read_copy.simps) (simp add: ReadByte_eq)
      from "1.IH" [OF lt rb [symmetric] refl refl rec] "1.prems"(2)
      obtain msg where m: "i + 1 \<le> n" "n < rlen" "e = I2CError msg"
        "snd (reads ?s1 !! nat (n - (i + 1))) = Some msg"
        by auto
      from m(1) "1.prems"(2) have "nat (n - i) = Suc (nat (n - (i + 1)))" by simp
      with m show ?thesis by simp
    qed
  qed
qed

subsection \<open>Read as a whole\<close>

lemma fifoDataLength_eq:
  "fifoDataLength v s =
     ((case snd (shd (reads s)) of None \<Rightarrow> uint (fst (shd (reads s))) | Some msg \<Rightarrow> - 1,
       map_option I2CError (snd (shd (reads s)))),
      s\<lparr>reads := stl (reads s), trace := trace s @ [EvReadRegU8 0x48]\<rparr>)"
  by (cases "shd (reads s)")
    (simp add: fifoDataLength_def readReg_eq regRXLVL_def split: option.splits)

lemma Read_unfold:
  "Read v p s =
     (case Read_poll v (shd (clock s) + timeout v) (s\<lparr>clock := stl (clock s)\<rparr>) of
        None \<Rightarrow> None
      | Some ((n, Some err), s1) \<Rightarrow> Some ((n, Some err), p, s1)
      | Some ((n, None), s1) \<Rightarrow>
          (case fifoDataLength v s1 of
             ((flen, Some err), s2) \<Rightarrow> Some ((- 1, Some err), p, s2)
           | ((flen, None), s2) \<Rightarrow>
               Some (Read_copy v p
                 (if int (length p) < flen then int (length p) else flen) 0 s2)))"
  unfolding Read_def Now_def Let_def by simp

lemma Read_poll_done:
  assumes "\<forall>k<n. snd (reads s !! k) = None \<and> \<not> bit (fst (reads s !! k)) 0 \<and>
             clock s !! Suc k \<le> shd (clock s) + timeout v"
    and "snd (reads s !! n) = None" "bit (fst (reads s !! n)) 0"
  shows "Read_poll v (shd (clock s) + timeout v) (s\<lparr>clock := stl (clock s)\<rparr>) =
     Some ((0, None),
           s\<lparr>reads := sdrop (Suc n) (reads s), clock := sdrop (Suc n) (clock s),
             trace := trace s @ replicate (Suc n) (EvReadRegU8 0x28)\<rparr>)"
proof -
  let ?s0 = "s\<lparr>clock := stl (clock s)\<rparr>"
  let ?T = "shd (clock s) + timeout v"
  have "Read_poll v ?T ?s0 = Read_poll v ?T (after_polls n ?s0)"
    using assms(1) by (intro Read_poll_advance) simp
  also have "\<dots> = Some ((0, None), (after_polls n ?s0)\<lparr>reads := stl (reads (after_polls n ?s0)),
      trace := trace (after_polls n ?s0) @ [EvReadRegU8 0x28]\<rparr>)"
    using assms(2,3) by (intro Read_poll_ready) (simp_all add: after_polls_sel)
  finally show ?thesis
    by (cases s) (simp add: after_polls_def replicate_append_same)
qed

lemma Read_timeout:
  assumes "\<forall>k\<le>n. snd (reads s !! k) = None \<and> \<not> bit (fst (reads s !! k)) 0"
    and "\<forall>k<n. clock s !! Suc k \<le> shd (clock s) + timeout v"
    and "shd (clock s) + timeout v < clock s !! Suc n"
  shows "Read v p s =
     Some ((- 2, Some ErrTimeout), p,
           s\<lparr>reads := sdrop (Suc n) (reads s), clock := sdrop (Suc (Suc n)) (clock s),
             trace := trace s @ replicate (Suc n) (EvReadRegU8 0x28)\<rparr>)"
proof -
  let ?s0 = "s\<lparr>clock := stl (clock s)\<rparr>"
  let ?T = "shd (clock s) + timeout v"
  have "Read_poll v ?T ?s0 = Read_poll v ?T (after_polls n ?s0)"
    using assms(1,2) by (intro Read_poll_advance) simp
  also have "\<dots> = Some ((- 2, Some ErrTimeout),
      (after_polls n ?s0)\<lparr>reads := stl (reads (after_polls n ?s0)),
      clock := stl (clock (after_polls n ?s0)),
      trace := trace (after_polls n ?s0) @ [EvReadRegU8 0x28]\<rparr>)"
    using assms(1,3) by (intro Read_poll_timeout) (simp_all add: after_polls_sel)
  finally show ?thesis
    by (cases s) (simp add: Read_unfold after_polls_def replicate_append_same)
qed

lemma Read_poll_bus_error:
  assumes "\<forall>k<n. snd (reads s !! k) = None \<and> \<not> bit (fst (reads s !! k)) 0 \<and>
             clock s !! Suc k \<le> shd (clock s) + timeout v"
    and "snd (reads s !! n) = Some msg"
  shows "Read v p s =
     Some ((- 1, Some (I2CError msg)), p,
           s\<lparr>reads := sdrop (Suc n) (reads s), clock := sdrop (Suc n) (clock s),
             trace := trace s @ replicate (Suc n) (EvReadRegU8 0x28)\<rparr>)"
proof -
  let ?s0 = "s\<lparr>clock := stl (clock s)\<rparr>"
  let ?T = "shd (clock s) + timeout v"
  have "Read_poll v ?T ?s0 = Read_poll v ?T (after_polls n ?s0)"
    using assms(1) by (intro Read_poll_advance) simp
  also have "\<dots> = Some ((- 1, Some (I2CError msg)),
      (after_polls n ?s0)\<lparr>reads := stl (reads (after_polls n ?s0)),
      trace := trace (after_polls n ?s0) @ [EvReadRegU8 0x28]\<rparr>)"
    using assms(2) by (intro Read_poll_error) (simp_all add: after_polls_sel)
  finally show ?thesis
    by (cases s) (simp add: Read_unfold after_polls_def replicate_append_same)
qed

lemma Read_fifo_bus_error:
  assumes "\<forall>k<n. snd (reads s !! k) = None \<and> \<not> bit (fst (reads s !! k)) 0 \<and>
             clock s !! Suc k \<le> shd (clock s) + timeout v"
    and "snd (reads s !! n) = None" "bit (fst (reads s !! n)) 0"
    and "snd (reads s !! Suc n) = Some msg"
  shows "Read v p s =
     Some ((- 1, Some (I2CError msg)), p,
           s\<lparr>reads := sdrop (Suc (Suc n)) (reads s), clock := sdrop (Suc n) (clock s),
             trace := trace s @ replicate (Suc n) (EvReadRegU8 0x28) @ [EvReadRegU8 0x48]\<rparr>)"
proof -
  note poll = Read_poll_done [OF assms(1,2,3)]
  show ?thesis
    unfolding Read_unfold poll using assms(4)
    by (cases s) (simp add: fifoDataLength_eq)
qed

lemma rlen_min:
  "(if int (length p) < uint flen then int (length p) else uint flen) =
      int (min (length p) (unat flen))"
proof -
  have u: "uint flen = int (unat flen)" by simp
  show ?thesis unfolding u min_def by (simp del: of_nat_unat)
qed

lemma Read_after_poll:
  assumes "\<forall>k<n. snd (reads s !! k) = None \<and> \<not> bit (fst (reads s !! k)) 0 \<and>
             clock s !! Suc k \<le> shd (clock s) + timeout v"
    and "snd (reads s !! n) = None" "bit (fst (reads s !! n)) 0"
    and "reads s !! Suc n = (flen, None)"
  shows "Read v p s =
     Some (Read_copy v p (int (min (length p) (unat flen))) 0
       (s\<lparr>reads := sdrop (Suc (Suc n)) (reads s), clock := sdrop (Suc n) (clock s),
          trace := trace s @ replicate (Suc n) (EvReadRegU8 0x28) @ [EvReadRegU8 0x48]\<rparr>))"
proof -
  note poll = Read_poll_done [OF assms(1,2,3)]
  let ?s1 = "s\<lparr>reads := sdrop (Suc n) (reads s), clock := sdrop (Suc n) (clock s),
             trace := trace s @ replicate (Suc n) (EvReadRegU8 0x28)\<rparr>"
  let ?s2 = "s\<lparr>reads := sdrop (Suc (Suc n)) (reads s), clock := sdrop (Suc n) (clock s),
          trace := trace s @ replicate (Suc n) (EvReadRegU8 0x28) @ [EvReadRegU8 0x48]\<rparr>"
  have f: "fifoDataLength v ?s1 = ((uint flen, None), ?s2)"
    using assms(4) by (cases s) (simp add: fifoDataLength_eq)
  show ?thesis
    unfolding Read_unfold poll by (simp only: f rlen_min option.case prod.case)
qed

lemma Read_ok:
  assumes "\<forall>k<n. snd (reads s !! k) = None \<and> \<not> bit (fst (reads s !! k)) 0 \<and>
             clock s !! Suc k \<le> shd (clock s) + timeout v"
    and "snd (reads s !! n) = None" "bit (fst (reads s !! n)) 0"
    and "reads s !! Suc n = (flen, None)"
    and "\<forall>k < min (length p) (unat flen). snd (reads s !! (Suc (Suc n) + k)) = None"
  shows "Read v p s =
     Some ((int (min (length p) (unat flen)), None),
           map fst (stake (min (length p) (unat flen)) (sdrop (Suc (Suc n)) (reads s))) @
             drop (min (length p) (unat flen)) p,
           s\<lparr>reads := sdrop (Suc (Suc n) + min (length p) (unat flen)) (reads s),
             clock := sdrop (Suc n) (clock s),
             trace := trace s @ replicate (Suc n) (EvReadRegU8 0x28) @ [EvReadRegU8 0x48] @
               replicate (min (length p) (unat flen)) (EvReadRegU8 0x00)\<rparr>)"
proof -
  let ?r = "min (length p) (unat flen)"
  let ?s2 = "s\<lparr>reads := sdrop (Suc (Suc n)) (reads s), clock := sdrop (Suc n) (clock s),
          trace := trace s @ replicate (Suc n) (EvReadRegU8 0x28) @ [EvReadRegU8 0x48]\<rparr>"
  have ok: "\<forall>k<?r. snd (reads ?s2 !! k) = None"
    using assms(5) by (simp add: sdrop_snth)
  have "Read_copy v p (int ?r) (int 0) ?s2 =
     ((int ?r, None),
      take 0 p @ map fst (stake ?r (reads ?s2)) @ drop ?r p,
      ?s2\<lparr>reads := sdrop ?r (reads ?s2), trace := trace ?s2 @ replicate ?r (EvReadRegU8 0x00)\<rparr>)"
    using ok by (intro Read_copy_ok) simp_all
  then have c: "Read_copy v p (int ?r) 0 ?s2 =
     ((int ?r, None),
      map fst (stake ?r (sdrop (Suc (Suc n)) (reads s))) @ drop ?r p,
      s\<lparr>reads := sdrop (Suc (Suc n) + ?r) (reads s),
             clock := sdrop (Suc n) (clock s),
             trace := trace s @ replicate (Suc n) (EvReadRegU8 0x28) @ [EvReadRegU8 0x48] @
               replicate ?r (EvReadRegU8 0x00)\<rparr>)"
    by (cases s) (simp add: add.commute del: of_nat_min)
  show ?thesis
    unfolding Read_after_poll [OF assms(1,2,3,4)] c ..
qed

lemma Read_copy_bus_error:
  assumes "\<forall>k<n. snd (reads s !! k) = None \<and> \<not> bit (fst (reads s !! k)) 0 \<and>
             clock s !! Suc k \<le> shd (clock s) + timeout v"
    and "snd (reads s !! n) = None" "bit (fst (reads s !! n)) 0"
    and "reads s !! Suc n = (flen, None)"
    and "j < min (length p) (unat flen)"
    and "\<forall>k<j. snd (reads s !! (Suc (Suc n) + k)) = None"
    and "reads s !! (Suc (Suc n) + j) = (b, Some msg)"
  shows "Read v p s =
     Some ((int j, Some (I2CError msg)),
           (map fst (stake j (sdrop (Suc (Suc n)) (reads s))) @ drop j p)[j := b],
           s\<lparr>reads := sdrop (Suc (Suc (Suc n)) + j) (reads s),
             clock := sdrop (Suc n) (clock s),
             trace := trace s @ replicate (Suc n) (EvReadRegU8 0x28) @ [EvReadRegU8 0x48] @
               replicate (Suc j) (EvReadRegU8 0x00)\<rparr>)"
proof -
  let ?r = "min (length p) (unat flen)"
  let ?s2 = "s\<lparr>reads := sdrop (Suc (Suc n)) (reads s), clock := sdrop (Suc n) (clock s),
          trace := trace s @ replicate (Suc n) (EvReadRegU8 0x28) @ [EvReadRegU8 0x48]\<rparr>"
  have ok: "\<forall>k<j. snd (reads ?s2 !! k) = None"
    using assms(6) by (simp add: sdrop_snth)
  have bad: "reads ?s2 !! j = (b, Some msg)"
    using assms(7) by (simp add: sdrop_snth)
  have "Read_copy v p (int ?r) (int 0) ?s2 =
     ((int (0 + j), Some (I2CError msg)),
      (take 0 p @ map fst (stake j (reads ?s2)) @ drop (0 + j) p)[0 + j := b],
      ?s2\<lparr>reads := sdrop (Suc j) (reads ?s2),
        trace := trace ?s2 @ replicate (Suc j) (EvReadRegU8 0x00)\<rparr>)"
    using assms(5) ok bad by (intro Read_copy_fail) simp_all
  then have c: "Read_copy v p (int ?r) 0 ?s2 =
     ((int j, Some (I2CError msg)),
      (map fst (stake j (sdrop (Suc (Suc n)) (reads s))) @ drop j p)[j := b],
      s\<lparr>reads := sdrop (Suc (Suc (Suc n)) + j) (reads s),
             clock := sdrop (Suc n) (clock s),
             trace := trace s @ replicate (Suc n) (EvReadRegU8 0x28) @ [EvReadRegU8 0x48] @
               replicate (Suc j) (EvReadRegU8 0x00)\<rparr>)"
    by (cases s) (simp add: add.commute del: of_nat_min)
  show ?thesis
    unfolding Read_after_poll [OF assms(1,2,3,4)] c ..
qed

lemma Read_error_cases:
  assumes "Read v p s = Some ((n, Some e), p', s')"
  shows "(n = - 2 \<and> e = ErrTimeout) \<or>
         (n = - 1 \<and> (\<exists>msg. e = I2CError msg)) \<or>
         (0 \<le> n \<and> n < int (length p) \<and>
          (\<exists>msg s1 s2 flen. e = I2CError msg \<and>
             Read_poll v (shd (clock s) + timeout v) (s\<lparr>clock := stl (clock s)\<rparr>) =
               Some ((0, None), s1) \<and>
             fifoDataLength v s1 = ((flen, None), s2) \<and>
             snd (reads s2 !! nat n) = Some msg))"
proof (cases "Read_poll v (shd (clock s) + timeout v) (s\<lparr>clock := stl (clock s)\<rparr>)")
  case None
  with assms show ?thesis by (simp add: Read_unfold)
next
  case (Some y)
  obtain r s1 where y: "y = (r, s1)" by (cases y)
  from Read_poll_results [OF Some] y
  consider "r = (0, None)" | msg where "r = (- 1, Some (I2CError msg))"
    | "r = (- 2, Some ErrTimeout)"
    by auto
  then show ?thesis
  proof cases
    case 2
    with assms Some y show ?thesis by (auto simp add: Read_unfold)
  next
    case 3
    with assms Some y show ?thesis by (auto simp add: Read_unfold)
  next
    case 1
    obtain flen eo s2 where f: "fifoDataLength v s1 = ((flen, eo), s2)"
      by (cases "fifoDataLength v s1") auto
    show ?thesis
    proof (cases eo)
      case (Some err)
      with f have "\<exists>msg. err = I2CError msg"
        by (auto simp add: fifoDataLength_eq)
      with assms \<open>Read_poll v (shd (clock s) + timeout v) (s\<lparr>clock := stl (clock s)\<rparr>) = Some y\<close>
        y 1 f Some show ?thesis
        by (auto simp add: Read_unfold)
    next
      case None
      let ?rlen = "if int (length p) < flen then int (length p) else flen"
      from assms \<open>Read_poll v (shd (clock s) + timeout v) (s\<lparr>clock := stl (clock s)\<rparr>) = Some y\<close>
        y 1 f None
      have c: "Read_copy v p ?rlen 0 s2 = ((n, Some e), p', s')"
        by (simp add: Read_unfold)
      from Read_copy_error [OF c] obtain msg where
        m: "0 \<le> n" "n < ?rlen" "e = I2CError msg" "snd (reads s2 !! nat n) = Some msg"
        by auto
      from m(2) have "n < int (length p)" by (simp split: if_splits)
      with m \<open>Read_poll v (shd (clock s) + timeout v) (s\<lparr>clock := stl (clock s)\<rparr>) = Some y\<close>
        y 1 f None show ?thesis
        by blast
    qed
  qed
qed



subsection \<open>Write\<close>

lemma Write_range_error:
  "Write_range v p w s = Some ((n, Some e), s') \<Longrightarrow> n = - 1"
proof (induction p arbitrary: w s)
  case Nil
  then show ?case by simp
next
  case (Cons c p)
  then show ?case
    by (auto split: option.splits prod.splits)
qed

lemma Write_range_count:
  "Write_range v xs w s = Some ((n, None), s1) \<Longrightarrow> n = w + int (length xs)"
proof (induction xs arbitrary: w s)
  case Nil
  then show ?case by simp
next
  case (Cons c xs)
  then show ?case
    by (fastforce split: option.splits prod.splits)
qed

lemma Write_range_append:
  "Write_range v xs w s = Some ((n, None), s1) \<Longrightarrow>
   Write_range v (xs @ ys) w s = Write_range v ys n s1"
proof (induction xs arbitrary: w s)
  case Nil
  then show ?case by simp
next
  case (Cons c xs)
  then show ?case
    by (auto split: option.splits prod.splits)
qed

lemma Write_abort:
  assumes "Write v xs s = Some ((k, None), s1)" "WriteByte v c s1 = Some (Some e, s2)"
  shows "Write v (xs @ c # ys) s = Some ((- 1, Some e), s2)"
  using assms Write_range_append [of v xs 0 s k s1 "c # ys"]
  by (simp add: Write_def)


section \<open>The byte stream\<close>

text \<open>
  In the statements below \<open>reads s !! k\<close> is the answer the bus will give to the \<open>k\<close>-th
  register read from \<open>s\<close> on, \<open>shd (clock s)\<close> is the clock reading taken at call entry,
  and \<open>clock s !! Suc k\<close> is the reading taken after the \<open>k\<close>-th poll. The deadline is
  \<open>shd (clock s) + timeout v\<close>. A poll of the Line Status Register is a read at address
  \<open>0x28\<close>; the receive FIFO level is read at \<open>0x48\<close>, the receive holding register at
  \<open>0x00\<close>.
\<close>

text \<open>
  Claim C4. Let the data-ready poll succeed: the first \<open>n\<close> polls succeed with bit 0 clear
  and the clock within the deadline, and the next poll succeeds with bit 0 set. Let the
  read of the FIFO level succeed with \<open>flen\<close>, and let the following
  \<open>min (length p) flen\<close> reads succeed. Then \<open>Read\<close> returns the count
  \<open>min (length p) flen\<close> and no error; it has read that many bytes, one register read
  each, into the front of the buffer, and has left the rest of the buffer as it was.
\<close>

theorem Read_min_count:
  assumes "\<forall>k<n. snd (reads s !! k) = None \<and> \<not> bit (fst (reads s !! k)) 0 \<and>
             clock s !! Suc k \<le> shd (clock s) + timeout v"
    and "snd (reads s !! n) = None" "bit (fst (reads s !! n)) 0"
    and "reads s !! Suc n = (flen, None)"
    and "\<forall>k < min (length p) (unat flen). snd (reads s !! (Suc (Suc n) + k)) = None"
  shows "Read v p s =
     Some ((int (min (length p) (unat flen)), None),
           map fst (stake (min (length p) (unat flen)) (sdrop (Suc (Suc n)) (reads s))) @
             drop (min (length p) (unat flen)) p,
           s\<lparr>reads := sdrop (Suc (Suc n) + min (length p) (unat flen)) (reads s),
             clock := sdrop (Suc n) (clock s),
             trace := trace s @ replicate (Suc n) (EvReadRegU8 0x28) @ [EvReadRegU8 0x48] @
               replicate (min (length p) (unat flen)) (EvReadRegU8 0x00)\<rparr>)"
  using assms by (rule Read_ok)

theorem Read_min_count_witness:
  "Read dev0 [0, 0]
     (bus_double ((0x60, None) ## (0x61, None) ## (3, None) ## (0x41, None) ## (0x42, None) ##
                  (0x43, None) ## sconst (0, None))
        (sconst None) (sconst 0)) =
   Some ((2, None), [0x41, 0x42],
         \<lparr>opens = sconst None, reads = (0x43, None) ## sconst (0, None), writes = sconst None,
           closes = sconst None, clock = sconst 0,
           trace = [EvReadRegU8 0x28, EvReadRegU8 0x28, EvReadRegU8 0x48,
                    EvReadRegU8 0x00, EvReadRegU8 0x00]\<rparr>)"
proof -
  let ?rs = "(0x60, None) ## (0x61, None) ## (3, None) ## (0x41, None) ## (0x42, None) ##
                  (0x43 :: u8, None :: string option) ## sconst (0, None)"
  let ?w = "bus_double ?rs (sconst None) (sconst 0)"
  have h1: "\<forall>k<Suc 0. snd (reads ?w !! k) = None \<and> \<not> bit (fst (reads ?w !! k)) 0 \<and>
             clock ?w !! Suc k \<le> shd (clock ?w) + timeout dev0"
    by (simp add: bus_double_def dev0_def bit_iff_odd_drop_bit)
  have h2: "snd (reads ?w !! Suc 0) = None" "bit (fst (reads ?w !! Suc 0)) 0"
    by (simp_all add: bus_double_def bit_iff_odd_drop_bit)
  have h3: "reads ?w !! Suc (Suc 0) = (3, None)"
    by (simp add: bus_double_def)
  have m: "min (length [0, 0 :: u8]) (unat (3 :: u8)) = Suc (Suc 0)" by simp
  have h4: "\<forall>k < min (length [0, 0 :: u8]) (unat (3 :: u8)).
      snd (reads ?w !! (Suc (Suc (Suc 0)) + k)) = None"
    unfolding m by (simp add: bus_double_def less_Suc_eq)
  from Read_min_count [OF h1 h2 h3 h4] show ?thesis
    unfolding m by (simp add: bus_double_def)
qed

text \<open>
  Claim C7. Let the data-ready poll and the read of the FIFO level succeed as above, let
  the first \<open>j\<close> reads of the copy loop succeed, with \<open>j < min (length p) flen\<close>, and let
  the next one fail with a bus error. Then \<open>Read\<close> returns the count \<open>j\<close> of the bytes
  read so far together with that error. (The buffer holds those \<open>j\<close> bytes, and at index
  \<open>j\<close> the byte the failed read returned beside its error.)
\<close>

theorem Read_partial_count:
  assumes "\<forall>k<n. snd (reads s !! k) = None \<and> \<not> bit (fst (reads s !! k)) 0 \<and>
             clock s !! Suc k \<le> shd (clock s) + timeout v"
    and "snd (reads s !! n) = None" "bit (fst (reads s !! n)) 0"
    and "reads s !! Suc n = (flen, None)"
    and "j < min (length p) (unat flen)"
    and "\<forall>k<j. snd (reads s !! (Suc (Suc n) + k)) = None"
    and "reads s !! (Suc (Suc n) + j) = (b, Some msg)"
  shows "Read v p s =
     Some ((int j, Some (I2CError msg)),
           (map fst (stake j (sdrop (Suc (Suc n)) (reads s))) @ drop j p)[j := b],
           s\<lparr>reads := sdrop (Suc (Suc (Suc n)) + j) (reads s),
             clock := sdrop (Suc n) (clock s),
             trace := trace s @ replicate (Suc n) (EvReadRegU8 0x28) @ [EvReadRegU8 0x48] @
               replicate (Suc j) (EvReadRegU8 0x00)\<rparr>)"
  using assms by (rule Read_copy_bus_error)

theorem Read_partial_count_witness:
  "Read dev0 [7, 8, 9]
     (bus_double ((0x61, None) ## (3, None) ## (0x41, None) ## (0, Some ''nack'') ##
                  sconst (0, None))
        (sconst None) (sconst 0)) =
   Some ((1, Some (I2CError ''nack'')), [0x41, 0, 9],
         \<lparr>opens = sconst None, reads = sconst (0, None), writes = sconst None,
           closes = sconst None, clock = sconst 0,
           trace = [EvReadRegU8 0x28, EvReadRegU8 0x48,
                    EvReadRegU8 0x00, EvReadRegU8 0x00]\<rparr>)"
proof -
  let ?rs = "(0x61, None) ## (3, None) ## (0x41, None) ## (0 :: u8, Some ''nack'') ##
                  sconst (0, None)"
  let ?w = "bus_double ?rs (sconst None) (sconst 0)"
  have h1: "\<forall>k<0. snd (reads ?w !! k) = None \<and> \<not> bit (fst (reads ?w !! k)) 0 \<and>
             clock ?w !! Suc k \<le> shd (clock ?w) + timeout dev0"
    by simp
  have h2: "snd (reads ?w !! 0) = None" "bit (fst (reads ?w !! 0)) 0"
    by (simp_all add: bus_double_def bit_iff_odd_drop_bit)
  have h3: "reads ?w !! Suc 0 = (3, None)"
    by (simp add: bus_double_def)
  have h4: "Suc 0 < min (length [7, 8, 9 :: u8]) (unat (3 :: u8))" by simp
  have h5: "\<forall>k<Suc 0. snd (reads ?w !! (Suc (Suc 0) + k)) = None"
    by (simp add: bus_double_def)
  have h6: "reads ?w !! (Suc (Suc 0) + Suc 0) = (0, Some ''nack'')"
    by (simp add: bus_double_def)
  from Read_partial_count [OF h1 h2 h3 h4 h5 h6] show ?thesis
    by (simp add: bus_double_def)
qed






text \<open>
  Claim C10. The count beside an error can be a negative sentinel. \<open>Write\<close> returns \<open>-1\<close>
  with every error it returns; in particular, when the bytes \<open>xs\<close> have been written and
  the write of the next byte fails, \<open>Write\<close> returns \<open>-1\<close> with that error and not the
  count of \<open>xs\<close>. \<open>Read\<close> returns \<open>-1\<close> with the bus error of a failed poll or of a failed
  read of the FIFO level, and \<open>-2\<close> with \<open>ErrTimeout\<close>. An error of \<open>Read\<close> beside a
  count that is not negative is a bus error of the copy loop: the poll and the read of
  the FIFO level had succeeded, and the error is that of the copy loop's read at the
  index returned.
\<close>

theorem negative_counts:
  "(\<forall>c e s'. Write v p s = Some ((c, Some e), s') \<longrightarrow> c = - 1)
   \<and> (\<forall>k s1 e s2. Write v xs s = Some ((k, None), s1) \<and> WriteByte v b s1 = Some (Some e, s2) \<longrightarrow>
         k = int (length xs) \<and> Write v (xs @ b # ys) s = Some ((- 1, Some e), s2))
   \<and> ((\<forall>k<n. snd (reads s !! k) = None \<and> \<not> bit (fst (reads s !! k)) 0 \<and>
             clock s !! Suc k \<le> shd (clock s) + timeout v) \<and>
       snd (reads s !! n) = Some msg \<longrightarrow>
       Read v p s =
         Some ((- 1, Some (I2CError msg)), p,
               s\<lparr>reads := sdrop (Suc n) (reads s), clock := sdrop (Suc n) (clock s),
                 trace := trace s @ replicate (Suc n) (EvReadRegU8 0x28)\<rparr>))
   \<and> ((\<forall>k<n. snd (reads s !! k) = None \<and> \<not> bit (fst (reads s !! k)) 0 \<and>
             clock s !! Suc k \<le> shd (clock s) + timeout v) \<and>
       snd (reads s !! n) = None \<and> bit (fst (reads s !! n)) 0 \<and>
       snd (reads s !! Suc n) = Some msg \<longrightarrow>
       Read v p s =
         Some ((- 1, Some (I2CError msg)), p,
               s\<lparr>reads := sdrop (Suc (Suc n)) (reads s), clock := sdrop (Suc n) (clock s),
                 trace := trace s @ replicate (Suc n) (EvReadRegU8 0x28) @
                   [EvReadRegU8 0x48]\<rparr>))
   \<and> ((\<forall>k\<le>n. snd (reads s !! k) = None \<and> \<not> bit (fst (reads s !! k)) 0) \<and>
       (\<forall>k<n. clock s !! Suc k \<le> shd (clock s) + timeout v) \<and>
       shd (clock s) + timeout v < clock s !! Suc n \<longrightarrow>
       Read v p s =
         Some ((- 2, Some ErrTimeout), p,
               s\<lparr>reads := sdrop (Suc n) (reads s), clock := sdrop (Suc (Suc n)) (clock s),
                 trace := trace s @ replicate (Suc n) (EvReadRegU8 0x28)\<rparr>))
   \<and> (\<forall>c e p' s'. Read v p s = Some ((c, Some e), p', s') \<longrightarrow>
         (c = - 2 \<and> e = ErrTimeout) \<or>
         (c = - 1 \<and> (\<exists>msg. e = I2CError msg)) \<or>
         (0 \<le> c \<and> c < int (length p) \<and>
          (\<exists>msg s1 s2 flen. e = I2CError msg \<and>
             Read_poll v (shd (clock s) + timeout v) (s\<lparr>clock := stl (clock s)\<rparr>) =
               Some ((0, None), s1) \<and>
             fifoDataLength v s1 = ((flen, None), s2) \<and>
             snd (reads s2 !! nat c) = Some msg)))"
proof -
  have w1: "\<forall>c e s'. Write v p s = Some ((c, Some e), s') \<longrightarrow> c = - 1"
    unfolding Write_def using Write_range_error by blast
  have w2: "\<forall>k s1 e s2. Write v xs s = Some ((k, None), s1) \<and>
         WriteByte v b s1 = Some (Some e, s2) \<longrightarrow>
         k = int (length xs) \<and> Write v (xs @ b # ys) s = Some ((- 1, Some e), s2)"
  proof (intro allI impI)
    fix k s1 e s2
    assume a: "Write v xs s = Some ((k, None), s1) \<and> WriteByte v b s1 = Some (Some e, s2)"
    then have "k = 0 + int (length xs)"
      unfolding Write_def using Write_range_count by blast
    with a Write_abort [of v xs s k s1 b e s2 ys]
    show "k = int (length xs) \<and> Write v (xs @ b # ys) s = Some ((- 1, Some e), s2)"
      by simp
  qed
  have r1: "(\<forall>k<n. snd (reads s !! k) = None \<and> \<not> bit (fst (reads s !! k)) 0 \<and>
             clock s !! Suc k \<le> shd (clock s) + timeout v) \<and>
       snd (reads s !! n) = Some msg \<longrightarrow>
       Read v p s =
         Some ((- 1, Some (I2CError msg)), p,
               s\<lparr>reads := sdrop (Suc n) (reads s), clock := sdrop (Suc n) (clock s),
                 trace := trace s @ replicate (Suc n) (EvReadRegU8 0x28)\<rparr>)"
    using Read_poll_bus_error by blast
  have r2: "(\<forall>k<n. snd (reads s !! k) = None \<and> \<not> bit (fst (reads s !! k)) 0 \<and>
             clock s !! Suc k \<le> shd (clock s) + timeout v) \<and>
       snd (reads s !! n) = None \<and> bit (fst (reads s !! n)) 0 \<and>
       snd (reads s !! Suc n) = Some msg \<longrightarrow>
       Read v p s =
         Some ((- 1, Some (I2CError msg)), p,
               s\<lparr>reads := sdrop (Suc (Suc n)) (reads s), clock := sdrop (Suc n) (clock s),
                 trace := trace s @ replicate (Suc n) (EvReadRegU8 0x28) @
                   [EvReadRegU8 0x48]\<rparr>)"
    using Read_fifo_bus_error by blast
  have r3: "(\<forall>k\<le>n. snd (reads s !! k) = None \<and> \<not> bit (fst (reads s !! k)) 0) \<and>
       (\<forall>k<n. clock s !! Suc k \<le> shd (clock s) + timeout v) \<and>
       shd (clock s) + timeout v < clock s !! Suc n \<longrightarrow>
       Read v p s =
         Some ((- 2, Some ErrTimeout), p,
               s\<lparr>reads := sdrop (Suc n) (reads s), clock := sdrop (Suc (Suc n)) (clock s),
                 trace := trace s @ replicate (Suc n) (EvReadRegU8 0x28)\<rparr>)"
    using Read_timeout by blast
  have r4: "\<forall>c e p' s'. Read v p s = Some ((c, Some e), p', s') \<longrightarrow>
         (c = - 2 \<and> e = ErrTimeout) \<or>
         (c = - 1 \<and> (\<exists>msg. e = I2CError msg)) \<or>
         (0 \<le> c \<and> c < int (length p) \<and>
          (\<exists>msg s1 s2 flen. e = I2CError msg \<and>
             Read_poll v (shd (clock s) + timeout v) (s\<lparr>clock := stl (clock s)\<rparr>) =
               Some ((0, None), s1) \<and>
             fifoDataLength v s1 = ((flen, None), s2) \<and>
             snd (reads s2 !! nat c) = Some msg))"
    using Read_error_cases by blast
  from w1 w2 r1 r2 r3 r4 show ?thesis by (intro conjI)
qed


theorem negative_counts_witness:
  "Write dev0 [0x41, 0x42]
     (bus_double ((0x20, None) ## (0, Some ''nack'') ## sconst (0, None)) (sconst None)
        (sconst 0)) =
   Some ((- 1, Some (I2CError ''nack'')),
         \<lparr>opens = sconst None, reads = sconst (0, None), writes = sconst None,
           closes = sconst None, clock = sconst 0,
           trace = [EvReadRegU8 0x28, EvWriteRegU8 0x00 0x41, EvReadRegU8 0x28]\<rparr>)
   \<and> Read dev0 [0, 0]
       (bus_double (sconst (0, None)) (sconst None) (0 ## 500000000 ## sconst 1500000000)) =
     Some ((- 2, Some ErrTimeout), [0, 0],
           \<lparr>opens = sconst None, reads = sconst (0, None), writes = sconst None,
             closes = sconst None, clock = sconst 1500000000,
             trace = [EvReadRegU8 0x28, EvReadRegU8 0x28]\<rparr>)"
proof -
  let ?w = "bus_double ((0x20, None) ## (0, Some ''nack'') ## sconst (0, None)) (sconst None)
        (sconst 0)"
  let ?s1 = "\<lparr>opens = sconst None, reads = (0 :: u8, Some ''nack'') ## sconst (0, None),
       writes = sconst None, closes = sconst None, clock = sconst 0,
       trace = [EvReadRegU8 0x28, EvWriteRegU8 0x00 0x41]\<rparr>"
  let ?s2 = "\<lparr>opens = sconst None, reads = sconst (0 :: u8, None :: string option),
       writes = sconst None, closes = sconst None, clock = sconst 0,
       trace = [EvReadRegU8 0x28, EvWriteRegU8 0x00 0x41, EvReadRegU8 0x28]\<rparr>"
  have a1: "\<forall>k<0. snd (reads ?w !! k) = None \<and> \<not> bit (fst (reads ?w !! k)) 5 \<and>
             clock ?w !! Suc k \<le> shd (clock ?w) + timeout dev0"
    by simp
  have a2: "snd (reads ?w !! 0) = None" "bit (fst (reads ?w !! 0)) 5"
    by (simp_all add: bus_double_def bit_iff_odd_drop_bit)
  have b1: "WriteByte dev0 0x41 ?w = Some (None, ?s1)"
    using WriteByte_ready [OF a1 a2, where c = "0x41"] by (simp add: bus_double_def)
  have w1: "Write dev0 [0x41] ?w = Some ((1, None), ?s1)"
    by (simp add: Write_def b1)
  have c1: "\<forall>k<0. snd (reads ?s1 !! k) = None \<and> \<not> bit (fst (reads ?s1 !! k)) 5 \<and>
             clock ?s1 !! Suc k \<le> shd (clock ?s1) + timeout dev0"
    by simp
  have c2: "snd (reads ?s1 !! 0) = Some ''nack''" by simp
  have b2: "WriteByte dev0 0x42 ?s1 = Some (Some (I2CError ''nack''), ?s2)"
    using WriteByte_bus_error [OF c1 c2, where c = "0x42"] by simp
  let ?v = "bus_double (sconst (0, None)) (sconst None) (0 ## 500000000 ## sconst 1500000000)"
  have r1: "\<forall>k\<le>Suc 0. snd (reads ?v !! k) = None \<and> \<not> bit (fst (reads ?v !! k)) 0"
    by (simp add: bus_double_def)
  have r2: "\<forall>k<Suc 0. clock ?v !! Suc k \<le> shd (clock ?v) + timeout dev0"
    by (simp add: bus_double_def dev0_def)
  have r3: "shd (clock ?v) + timeout dev0 < clock ?v !! Suc (Suc 0)"
    by (simp add: bus_double_def dev0_def)
  note t = negative_counts [where v = dev0 and s = ?w and xs = "[0x41]" and b = "0x42"
      and ys = "[]"]
  from t w1 b2 have "Write dev0 ([0x41] @ 0x42 # []) ?w = Some ((- 1, Some (I2CError ''nack'')), ?s2)"
    by blast
  moreover
  note u = negative_counts [where v = dev0 and s = ?v and p = "[0, 0]" and n = "Suc 0"]
  from u r1 r2 r3 have "Read dev0 [0, 0] ?v =
         Some ((- 2, Some ErrTimeout), [0, 0],
               ?v\<lparr>reads := sdrop (Suc (Suc 0)) (reads ?v),
                 clock := sdrop (Suc (Suc (Suc 0))) (clock ?v),
                 trace := trace ?v @ replicate (Suc (Suc 0)) (EvReadRegU8 0x28)\<rparr>)"
    by blast
  ultimately show ?thesis by (simp add: bus_double_def)
qed


end
